theory Spec2Isabelle
  imports Main
begin

section \<open>Values exchanged with the server (types.ts)\<close>

text \<open>
  The client casts whatever \<open>JSON.parse\<close> returns to \<open>JsonRpcResponse\<close> without
  checking it, so a message is modelled as an arbitrary JavaScript value built from JSON.
  \<open>JUndefined\<close> is the value of a property that is absent. Numbers are the integers;
  a string is a list of code units.
\<close>

datatype json =
    JUndefined
  | JNull
  | JBool bool
  | JNum int
  | JStr string
  | JArr "json list"
  | JObj "(string \<times> json) list"

text \<open>
  Errors a promise is rejected with. \<open>Error m\<close> is \<open>new Error(m)\<close> with a fixed
  message; \<open>ServerError m c\<close> is the error built in \<open>handleMessage\<close> and in the HTTP
  branch of \<open>sendRequest\<close> from the template
  \<open>`${error.message} (code: ${error.code})`\<close>, kept as the two interpolated
  values; \<open>TypeError\<close> is a property read on \<open>null\<close> or \<open>undefined\<close> (or a call of
  a non-function); \<open>ReferenceError\<close> is a read of an undeclared global;
  \<open>TransportError\<close> is an error handed over by the HTTP library.
\<close>

datatype error =
    Error string
  | ServerError json json
  | TypeError
  | ReferenceError
  | TransportError string

datatype outcome = Resolved json | Rejected error

text \<open>Property read \<open>v.k\<close>: \<open>None\<close> is the TypeError thrown on \<open>null\<close> and
  \<open>undefined\<close>. Only the keys the client reads (\<open>id\<close>, \<open>error\<close>, \<open>result\<close>,
  \<open>message\<close>, \<open>code\<close>, \<open>serverInfo\<close>, \<open>name\<close>, \<open>version\<close>, \<open>tools\<close>) are meant:
  none of them is a property of a primitive, of an array or of \<open>Object.prototype\<close>.\<close>

fun get_prop :: "json \<Rightarrow> string \<Rightarrow> json option" where
  "get_prop JUndefined k = None"
| "get_prop JNull k = None"
| "get_prop (JObj kvs) k = Some (case map_of kvs k of Some v \<Rightarrow> v | None \<Rightarrow> JUndefined)"
| "get_prop v k = Some JUndefined"

text \<open>JavaScript truthiness, as used by \<open>if (message.error)\<close>.\<close>

fun truthy :: "json \<Rightarrow> bool" where
  "truthy JUndefined = False"
| "truthy JNull = False"
| "truthy (JBool b) = b"
| "truthy (JNum n) = (n \<noteq> 0)"
| "truthy (JStr s) = (s \<noteq> [])"
| "truthy (JArr xs) = True"
| "truthy (JObj kvs) = True"

text \<open>The three shapes of an outgoing JSON-RPC message (before \<open>JSON.stringify\<close>).\<close>

datatype message =
    Request nat string json
  | Notification string json

section \<open>The session (class McpClient)\<close>

text \<open>
  \<open>McpServerConfigExtended\<close>: every field is optional. The handles are the parts of
  the external objects the client reads: a child process has \<open>killed\<close> and may have a
  \<open>stdin\<close> stream, a socket has a \<open>readyState\<close> (0 connecting, 1 open, 2 closing,
  3 closed).
\<close>

record server_config =
  cfg_type :: "string option"
  command :: "string option"
  args :: "string list option"
  env_overrides :: "(string \<times> string) list option"
  url :: "string option"

record proc =
  killed :: bool
  stdin :: bool

record socket =
  readyState :: nat

text \<open>
  Who awaits the promise that \<open>sendRequest\<close> returns: \<open>initialize()\<close>,
  \<open>discoverTools()\<close>, or an external caller of \<open>callTool\<close> (numbered by the host).
  \<open>AwaitNotified\<close> is \<open>initialize()\<close> waiting for the POST of the
  \<open>notifications/initialized\<close> message on the HTTP transport. A stored waiter stands for
  the \<open>{resolve, reject}\<close> pair kept in \<open>pendingRequests\<close>.
\<close>

datatype waiter = AwaitInitialize | AwaitNotified | AwaitDiscover | Caller nat

record client =
  config :: server_config
  process :: "proc option"
  ws :: "socket option"
  httpUrl :: "string option"
  requestId :: nat
  pendingRequests :: "nat \<rightharpoonup> waiter"
  buffer :: string
  serverInfo :: json
  tools :: json

text \<open>The state the constructor leaves.\<close>

definition new_client :: "server_config \<Rightarrow> client" where
  "new_client cfg =
     \<lparr>config = cfg, process = None, ws = None, httpUrl = None, requestId = 0,
      pendingRequests = Map.empty, buffer = [], serverInfo = JNull, tools = JArr []\<rparr>"

text \<open>Lines written to the output channel, by kind rather than by their text.\<close>

datatype log_entry =
    LogStarting string "string list"
  | LogProcessExited
  | LogWsConnecting string
  | LogWsConnected
  | LogWsInitFailed error
  | LogWsClosed
  | LogHttp string
  | LogConnected
  | LogDiscovered
  | LogOutgoing message
  | LogIncoming string
  | LogParseFailed string
  | LogWsParseFailed string

text \<open>
  What a handler does to the world besides updating the session: output-channel lines,
  operations on the transport, events emitted to the host, and promises settled
  (\<open>Settled k\<close>: the promise returned to caller \<open>k\<close> of \<open>callTool\<close>;
  \<open>StartSettled\<close>: the promise returned by \<open>start()\<close>). \<open>Post u m w\<close> is the POST
  issued by \<open>postJson\<close>, whose completion continues \<open>w\<close>.
\<close>

datatype effect =
    Log log_entry
  | Spawn string "string list" "(string \<times> string) list"
  | Kill
  | StdinWrite message
  | WsConnect string
  | WsSend message
  | WsCloseCall
  | Post string message waiter
  | EmitExit
  | Settled nat outcome
  | StartSettled outcome

text \<open>\<open>this.config.type || 'stdio'\<close>: an absent or empty type is \<open>stdio\<close>.\<close>

definition transport :: "client \<Rightarrow> string" where
  "transport c =
     (case cfg_type (config c) of
        None \<Rightarrow> ''stdio''
      | Some t \<Rightarrow> if t = [] then ''stdio'' else t)"

text \<open>\<open>get isConnected\<close>: \<open>this.process !== null && !this.process.killed\<close>.\<close>

definition isConnected :: "client \<Rightarrow> bool" where
  "isConnected c = (case process c of None \<Rightarrow> False | Some p \<Rightarrow> \<not> killed p)"

text \<open>
  \<open>stop()\<close>: kills the child and closes the socket when there is one (the exception
  of \<open>ws.close()\<close> is swallowed), and clears the handles, the HTTP URL, the tool list
  and the server identity. It touches neither \<open>pendingRequests\<close> nor \<open>requestId\<close> nor
  \<open>buffer\<close>.
\<close>

definition stop :: "client \<Rightarrow> client \<times> effect list" where
  "stop c =
     (c\<lparr>process := None, ws := None, httpUrl := None, tools := JArr [], serverInfo := JNull\<rparr>,
      (case process c of None \<Rightarrow> [] | Some p \<Rightarrow> [Kill]) @
      (case ws c of None \<Rightarrow> [] | Some s \<Rightarrow> [WsCloseCall]))"

text \<open>The handler of the child's \<open>exit\<close> event, and the handler of the socket's
  \<open>close\<close> event.\<close>

definition on_exit :: "client \<Rightarrow> client \<times> effect list" where
  "on_exit c = (c\<lparr>process := None\<rparr>, [Log LogProcessExited, EmitExit])"

definition on_ws_close :: "client \<Rightarrow> client \<times> effect list" where
  "on_ws_close c = (c\<lparr>ws := None\<rparr>, [Log LogWsClosed, EmitExit])"

section \<open>Placeholder resolution\<close>

text \<open>
  What \<open>resolvePlaceholders\<close> reads besides its arguments: \<open>process.env\<close>, the path
  of the first workspace folder (\<open>vscode.workspace.workspaceFolders?.[0]?.uri.fsPath\<close>),
  \<open>process.cwd()\<close> and \<open>process.platform\<close>. \<open>env h v\<close> is \<open>process.env[v]\<close> for a
  variable of the environment (\<open>None\<close>: \<open>undefined\<close>); the members that \<open>process.env\<close>
  inherits from \<open>Object.prototype\<close> are not variables and are left out, as is a
  \<open>process.cwd()\<close> that throws.
\<close>

record host =
  env :: "string \<rightharpoonup> string"
  workspaceFolders0 :: "string option"
  cwd :: string
  platform :: string

text \<open>\<open>a || b || ''\<close> over values that are a string or \<open>undefined\<close>: the first one
  that is a non-empty string, else the empty string.\<close>

fun first_truthy :: "string option list \<Rightarrow> string" where
  "first_truthy [] = []"
| "first_truthy (None # r) = first_truthy r"
| "first_truthy (Some s # r) = (if s = [] then first_truthy r else s)"

text \<open>\<open>String.prototype.split\<close> on a one-character separator class: the pieces
  between separators, at least one piece.\<close>

fun split_on :: "(char \<Rightarrow> bool) \<Rightarrow> string \<Rightarrow> string list" where
  "split_on P [] = [[]]"
| "split_on P (c # cs) =
     (if P c then [] # split_on P cs
      else (case split_on P cs of l # ls \<Rightarrow> (c # l) # ls | [] \<Rightarrow> [[c]]))"

definition is_path_sep :: "char \<Rightarrow> bool" where
  "is_path_sep c = (c = CHR ''/'' \<or> c = CHR 0x5C)"

text \<open>One match of the regular expression \<open>/\$\{([^}]+)\}/\<close> anchored at the start of
  the string: the captured placeholder and the text after the closing brace.\<close>

definition match_token :: "string \<Rightarrow> (string \<times> string) option" where
  "match_token s =
     (case s of
        c1 # c2 # r \<Rightarrow>
          if c1 = CHR ''$'' \<and> c2 = CHR ''{'' then
            (let p = takeWhile (\<lambda>c. c \<noteq> CHR ''}'') r;
                 rest = dropWhile (\<lambda>c. c \<noteq> CHR ''}'') r
             in if p \<noteq> [] \<and> rest \<noteq> [] then Some (p, tl rest) else None)
          else None
      | _ \<Rightarrow> None)"

text \<open>\<open>value.replace(/\$\{([^}]+)\}/g, f)\<close>: the matches are found from left to
  right, none overlapping, and each is replaced by what the callback returns for its
  placeholder; the callback's result is not scanned again.\<close>

function replace_tokens :: "(string \<Rightarrow> string) \<Rightarrow> string \<Rightarrow> string" where
  "replace_tokens f [] = []"
| "replace_tokens f (c # cs) =
     (case match_token (c # cs) of
        Some (p, rest) \<Rightarrow> f p @ replace_tokens f rest
      | None \<Rightarrow> c # replace_tokens f cs)"
  by pat_completeness auto
termination
proof (relation "measure (\<lambda>(f, s). length s)")
  show "wf (measure (\<lambda>(f, s). length s))" by simp
next
  fix f :: "string \<Rightarrow> string" and c cs x2 p rest
  assume "match_token (c # cs) = Some x2" and "(p, rest) = x2"
  then obtain r where "rest = tl (dropWhile (\<lambda>c. c \<noteq> CHR ''}'') r)" and "length r < length cs"
    by (auto simp: match_token_def Let_def split: list.splits if_splits)
  moreover have "length (tl (dropWhile (\<lambda>c. c \<noteq> CHR ''}'') r)) \<le> length r"
    using length_dropWhile_le [of "\<lambda>c. c \<noteq> CHR ''}''" r] by simp
  ultimately show "((f, rest), (f, c # cs)) \<in> measure (\<lambda>(f, s). length s)" by simp
next
  fix f :: "string \<Rightarrow> string" and c :: char and cs :: string
  show "((f, cs), (f, c # cs)) \<in> measure (\<lambda>(f, s). length s)" by simp
qed

text \<open>The callback of \<open>resolvePlaceholders\<close>, applied to the captured placeholder; the
  default case returns the whole match.\<close>

definition placeholder_value :: "host \<Rightarrow> string option \<Rightarrow> string \<Rightarrow> string" where
  "placeholder_value h workspaceFolder p =
     (if take 4 p = ''env:'' then first_truthy [env h (drop 4 p)]
      else if p = ''workspaceFolder'' then first_truthy [workspaceFolder, workspaceFolders0 h]
      else if p = ''workspaceFolderBasename'' then
        (let folder = first_truthy [workspaceFolder, workspaceFolders0 h]
         in if folder = [] then [] else last (split_on is_path_sep folder))
      else if p = ''userHome'' then first_truthy [env h ''HOME'', env h ''USERPROFILE'']
      else if p = ''cwd'' then cwd h
      else if p = ''pathSeparator'' then (if platform h = ''win32'' then [CHR 0x5C] else ''/'')
      else ''${'' @ p @ ''}'')"

definition resolvePlaceholders :: "host \<Rightarrow> string \<Rightarrow> string option \<Rightarrow> string" where
  "resolvePlaceholders h v workspaceFolder =
     replace_tokens (placeholder_value h workspaceFolder) v"

definition resolveEnvPlaceholders ::
  "host \<Rightarrow> (string \<times> string) list option \<Rightarrow> string option \<Rightarrow> (string \<times> string) list option" where
  "resolveEnvPlaceholders h e workspaceFolder =
     (case e of
        None \<Rightarrow> None
      | Some kvs \<Rightarrow> Some (map (\<lambda>(k, v). (k, resolvePlaceholders h v workspaceFolder)) kvs))"

section \<open>Sending\<close>

text \<open>
  \<open>++this.requestId\<close> on a JavaScript number that holds a non-negative integer: the
  sum is exact below \<open>2^53\<close>; at \<open>2^53\<close> the sum \<open>2^53 + 1\<close> is not a double and
  rounds back to \<open>2^53\<close>. The counter starts at 0 and changes by this step only, so it
  never holds another value.
\<close>

definition js_incr :: "nat \<Rightarrow> nat" where
  "js_incr n = (if n < 2 ^ 53 then n + 1 else n)"

text \<open>\<open>this.process?.stdin\<close> is truthy.\<close>

definition has_stdin :: "client \<Rightarrow> bool" where
  "has_stdin c = (case process c of None \<Rightarrow> False | Some p \<Rightarrow> stdin p)"

text \<open>
  What the model takes from the JavaScript runtime: \<open>JSON.parse\<close> (\<open>None\<close>: it throws
  a SyntaxError), and the value of the global \<open>WebSocket.OPEN\<close> that
  \<open>sendNotification\<close> reads (\<open>None\<close>: no global \<open>WebSocket\<close> is declared, the read
  throws a ReferenceError). \<open>WsClient.OPEN\<close> of the \<open>ws\<close> package is 1.
\<close>

record runtime =
  json_parse :: "string \<Rightarrow> json option"
  global_WebSocket_OPEN :: "nat option"

definition WsClient_OPEN :: nat where
  "WsClient_OPEN = 1"

text \<open>A string that may be absent, tested for truthiness: \<open>!this.httpUrl\<close>,
  \<open>!this.config.command\<close> and \<open>!this.config.url\<close> hold when the value is absent or
  the empty string.\<close>

definition required :: "string option \<Rightarrow> string option" where
  "required v = (case v of None \<Rightarrow> None | Some s \<Rightarrow> if s = [] then None else Some s)"

text \<open>
  \<open>sendRequest(method, params)\<close>, with the awaiting party \<open>w\<close> made explicit. The
  result is the updated session, the effects, and the error of a promise that is
  rejected before \<open>sendRequest\<close> returns (\<open>None\<close>: the promise is pending). On HTTP the
  promise is settled by the completion of the POST (\<open>http_response\<close> below).
\<close>

definition sendRequest ::
  "client \<Rightarrow> waiter \<Rightarrow> string \<Rightarrow> json \<Rightarrow> client \<times> effect list \<times> error option" where
  "sendRequest c w method params =
     (if transport c = ''http'' then
        (case required (httpUrl c) of
           None \<Rightarrow> (c, [], Some (Error ''HTTP transport not configured''))
         | Some u \<Rightarrow>
             (let i = js_incr (requestId c)
              in (c\<lparr>requestId := i\<rparr>, [Post u (Request i method params) w], None)))
      else
        (let i = js_incr (requestId c);
             c1 = c\<lparr>requestId := i, pendingRequests := (pendingRequests c)(i \<mapsto> w)\<rparr>;
             m = Request i method params
         in if transport c = ''stdio'' then
              (if \<not> has_stdin c1 then
                 (c1\<lparr>pendingRequests := (pendingRequests c1)(i := None)\<rparr>, [],
                  Some (Error ''MCP server not connected''))
               else (c1, [Log (LogOutgoing m), StdinWrite m], None))
            else
              (case ws c1 of
                 None \<Rightarrow>
                   (c1\<lparr>pendingRequests := (pendingRequests c1)(i := None)\<rparr>, [],
                    Some (Error ''MCP WebSocket not connected''))
               | Some s \<Rightarrow>
                   if readyState s \<noteq> WsClient_OPEN then
                     (c1\<lparr>pendingRequests := (pendingRequests c1)(i := None)\<rparr>, [],
                      Some (Error ''MCP WebSocket not connected''))
                   else (c1, [Log (LogOutgoing m), WsSend m], None))))"

text \<open>\<open>callTool(name, args)\<close> for the external caller \<open>k\<close>.\<close>

definition callTool ::
  "client \<Rightarrow> nat \<Rightarrow> string \<Rightarrow> json \<Rightarrow> client \<times> effect list \<times> error option" where
  "callTool c k name arguments =
     sendRequest c (Caller k) ''tools/call'' (JObj [(''name'', JStr name), (''arguments'', arguments)])"

text \<open>
  \<open>sendNotification(method, params)\<close>: the session is not changed. \<open>Inl e\<close>: the
  async function throws \<open>e\<close>; \<open>Inr effs\<close>: it returns, having done \<open>effs\<close>. A
  \<open>Post\<close> among the effects is awaited before it returns, and whatever the POST ends
  with is ignored.
\<close>

definition sendNotification ::
  "runtime \<Rightarrow> client \<Rightarrow> string \<Rightarrow> json \<Rightarrow> error + effect list" where
  "sendNotification rt c method params =
     (let m = Notification method params
      in if transport c = ''http'' then
           (case required (httpUrl c) of
              None \<Rightarrow> Inr []
            | Some u \<Rightarrow> Inr [Post u m AwaitNotified])
         else if transport c = ''stdio'' then
           (if \<not> has_stdin c then Inr [] else Inr [Log (LogOutgoing m), StdinWrite m])
         else
           (case ws c of
              None \<Rightarrow> Inr []
            | Some s \<Rightarrow>
                (case global_WebSocket_OPEN rt of
                   None \<Rightarrow> Inl ReferenceError
                 | Some opn \<Rightarrow>
                     if readyState s = opn then Inr [Log (LogOutgoing m), WsSend m]
                     else Inr [])))"

section \<open>Receiving\<close>

text \<open>
  The key of \<open>pendingRequests\<close> that a received \<open>id\<close> is equal to: the keys stored are
  the numbers \<open>sendRequest\<close> allocated, so only a non-negative number can be one.
\<close>

fun key_of :: "json \<Rightarrow> nat option" where
  "key_of (JNum n) = (if 0 \<le> n then Some (nat n) else None)"
| "key_of v = None"

text \<open>The value of \<open>v.k\<close> for a \<open>v\<close> known to be neither \<open>null\<close> nor
  \<open>undefined\<close>.\<close>

definition prop_of :: "json \<Rightarrow> string \<Rightarrow> json" where
  "prop_of v k = (case get_prop v k of Some x \<Rightarrow> x | None \<Rightarrow> JUndefined)"

text \<open>How a response settles the promise it belongs to: \<open>if (message.error)\<close> the
  promise is rejected with the server's message and code, else it is resolved with
  \<open>message.result\<close>.\<close>

definition response_outcome :: "json \<Rightarrow> outcome" where
  "response_outcome msg =
     (let e = prop_of msg ''error''
      in if truthy e then Rejected (ServerError (prop_of e ''message'') (prop_of e ''code''))
         else Resolved (prop_of msg ''result''))"

text \<open>
  \<open>handleMessage(message)\<close>. \<open>Inl TypeError\<close>: the read of \<open>message.id\<close> throws.
  Otherwise the updated session and, when a pending entry matched, the waiter whose
  promise is settled and how.
\<close>

definition handleMessage ::
  "client \<Rightarrow> json \<Rightarrow> error + client \<times> (waiter \<times> outcome) option" where
  "handleMessage c msg =
     (case get_prop msg ''id'' of
        None \<Rightarrow> Inl TypeError
      | Some i \<Rightarrow>
          if i = JUndefined then Inr (c, None)
          else
            (case key_of i of
               None \<Rightarrow> Inr (c, None)
             | Some k \<Rightarrow>
                 (case pendingRequests c k of
                    None \<Rightarrow> Inr (c, None)
                  | Some w \<Rightarrow>
                      Inr (c\<lparr>pendingRequests := (pendingRequests c)(k := None)\<rparr>,
                           Some (w, response_outcome msg)))))"

text \<open>\<open>line.trim()\<close> is the empty string: every code unit of the line is white space
  or a line terminator (those below 256).\<close>

definition js_space :: "char \<Rightarrow> bool" where
  "js_space c = (c \<in> set [CHR 0x09, CHR 0x0A, CHR 0x0B, CHR 0x0C, CHR 0x0D, CHR 0x20, CHR 0xA0])"

definition blank :: "string \<Rightarrow> bool" where
  "blank l = list_all js_space l"

text \<open>The body of the loop of \<open>handleData\<close> for one line: the session, the log lines
  and the settlements so far are threaded through.\<close>

definition handleLine ::
  "runtime \<Rightarrow> client \<times> effect list \<times> (waiter \<times> outcome) list \<Rightarrow> string
     \<Rightarrow> client \<times> effect list \<times> (waiter \<times> outcome) list" where
  "handleLine rt acc l =
     (case acc of (c, effs, settled) \<Rightarrow>
        if blank l then (c, effs, settled)
        else
          (case json_parse rt l of
             None \<Rightarrow> (c, effs @ [Log (LogIncoming l), Log (LogParseFailed l)], settled)
           | Some msg \<Rightarrow>
               (case handleMessage c msg of
                  Inl e \<Rightarrow> (c, effs @ [Log (LogIncoming l), Log (LogParseFailed l)], settled)
                | Inr (c1, None) \<Rightarrow> (c1, effs @ [Log (LogIncoming l)], settled)
                | Inr (c1, Some st) \<Rightarrow> (c1, effs @ [Log (LogIncoming l)], settled @ [st]))))"

text \<open>
  \<open>handleData(data)\<close>: the buffer is extended by the chunk and split at the newlines;
  the last piece is kept as the new buffer and the others are handled in order. The
  promises settled are returned in the order of settlement; their continuations run
  after the handler has returned.
\<close>

definition handleData ::
  "runtime \<Rightarrow> client \<Rightarrow> string \<Rightarrow> client \<times> effect list \<times> (waiter \<times> outcome) list" where
  "handleData rt c data =
     (let lines = split_on (\<lambda>ch. ch = CHR 0x0A) (buffer c @ data)
      in foldl (handleLine rt) (c\<lparr>buffer := last lines\<rparr>, [], []) (butlast lines))"

section \<open>The handshake\<close>

text \<open>
  \<open>initialize()\<close> and \<open>discoverTools()\<close> are awaited by \<open>start()\<close> on the stdio and
  HTTP transports, and by the handler of the socket's \<open>open\<close> event on the websocket
  transport. An exception that leaves them rejects the promise of \<open>start()\<close> in the
  first case; in the second the handler catches it and writes a line to the output
  channel, \<open>start()\<close> having returned long before.
\<close>

definition handshake_failed :: "client \<Rightarrow> error \<Rightarrow> client \<times> effect list" where
  "handshake_failed c e =
     (if transport c = ''websocket'' then (c, [Log (LogWsInitFailed e)])
      else (c, [StartSettled (Rejected e)]))"

definition handshake_done :: "client \<Rightarrow> client \<times> effect list" where
  "handshake_done c =
     (if transport c = ''websocket'' then (c, [])
      else (c, [StartSettled (Resolved JUndefined)]))"

definition initialize_params :: json where
  "initialize_params =
     JObj [(''protocolVersion'', JStr ''2024-11-05''),
           (''capabilities'', JObj [(''roots'', JObj [(''listChanged'', JBool True)])]),
           (''clientInfo'', JObj [(''name'', JStr ''vscode-mcp-proxy''), (''version'', JStr ''0.0.1'')])]"

text \<open>\<open>initialize()\<close> up to its first \<open>await\<close>, after the effects \<open>effs\<close> of its
  caller.\<close>

definition initialize_send :: "client \<Rightarrow> effect list \<Rightarrow> client \<times> effect list" where
  "initialize_send c effs =
     (case sendRequest c AwaitInitialize ''initialize'' initialize_params of
        (c1, effs1, None) \<Rightarrow> (c1, effs @ effs1)
      | (c1, effs1, Some e) \<Rightarrow>
          (case handshake_failed c1 e of (c2, effs2) \<Rightarrow> (c2, effs @ effs1 @ effs2)))"

text \<open>\<open>discoverTools()\<close> up to its \<open>await\<close>.\<close>

definition discoverTools_send :: "client \<Rightarrow> effect list \<Rightarrow> client \<times> effect list" where
  "discoverTools_send c effs =
     (case sendRequest c AwaitDiscover ''tools/list'' (JObj []) of
        (c1, effs1, None) \<Rightarrow> (c1, effs @ effs1)
      | (c1, effs1, Some e) \<Rightarrow>
          (case handshake_failed c1 e of (c2, effs2) \<Rightarrow> (c2, effs @ effs1 @ effs2)))"

text \<open>
  \<open>initialize()\<close> after its request is resolved with \<open>v\<close>: \<open>serverInfo\<close> is assigned,
  the log line reads \<open>this.serverInfo.serverInfo.name\<close> and \<open>.version\<close>, the
  notification is sent and awaited, and \<open>discoverTools()\<close> follows. On HTTP with a URL
  the function waits for the POST of the notification first.
\<close>

definition initialize_resolved :: "runtime \<Rightarrow> client \<Rightarrow> json \<Rightarrow> client \<times> effect list" where
  "initialize_resolved rt c v =
     (let c1 = c\<lparr>serverInfo := v\<rparr>
      in case get_prop v ''serverInfo'' of
           None \<Rightarrow> handshake_failed c1 TypeError
         | Some si \<Rightarrow>
             (case get_prop si ''name'' of
                None \<Rightarrow> handshake_failed c1 TypeError
              | Some n \<Rightarrow>
                  (case sendNotification rt c1 ''notifications/initialized'' (JObj []) of
                     Inl e \<Rightarrow>
                       (case handshake_failed c1 e of (c2, effs2) \<Rightarrow> (c2, Log LogConnected # effs2))
                   | Inr effs \<Rightarrow>
                       (case effs of
                          [Post u m w] \<Rightarrow> (c1, [Log LogConnected, Post u m w])
                        | _ \<Rightarrow> discoverTools_send c1 (Log LogConnected # effs)))))"

text \<open>The log line of \<open>discoverTools()\<close> reads \<open>this._tools.length\<close>, calls
  \<open>this._tools.map(t => t.name)\<close> and joins the names: it completes only on an array
  none of whose elements is \<open>null\<close> or \<open>undefined\<close>.\<close>

definition loggable_tools :: "json \<Rightarrow> bool" where
  "loggable_tools t =
     (case t of JArr ts \<Rightarrow> list_all (\<lambda>x. get_prop x ''name'' \<noteq> None) ts | _ \<Rightarrow> False)"

text \<open>\<open>discoverTools()\<close> after its request is resolved with \<open>v\<close>: \<open>_tools\<close> is
  assigned \<open>v.tools\<close> before the log line is built.\<close>

definition discoverTools_resolved :: "client \<Rightarrow> json \<Rightarrow> client \<times> effect list" where
  "discoverTools_resolved c v =
     (case get_prop v ''tools'' of
        None \<Rightarrow> handshake_failed c TypeError
      | Some t \<Rightarrow>
          (let c1 = c\<lparr>tools := t\<rparr>
           in if loggable_tools t then
                (case handshake_done c1 of (c2, effs2) \<Rightarrow> (c2, Log LogDiscovered # effs2))
              else handshake_failed c1 TypeError))"

text \<open>The continuation of a settled promise: the code after the \<open>await\<close> of the
  waiter. A caller of \<open>callTool\<close> is outside the client; its promise is reported as
  settled.\<close>

definition continue :: "runtime \<Rightarrow> client \<Rightarrow> waiter \<Rightarrow> outcome \<Rightarrow> client \<times> effect list" where
  "continue rt c w oc =
     (case w of
        Caller k \<Rightarrow> (c, [Settled k oc])
      | AwaitInitialize \<Rightarrow>
          (case oc of Resolved v \<Rightarrow> initialize_resolved rt c v | Rejected e \<Rightarrow> handshake_failed c e)
      | AwaitNotified \<Rightarrow> discoverTools_send c []
      | AwaitDiscover \<Rightarrow>
          (case oc of Resolved v \<Rightarrow> discoverTools_resolved c v | Rejected e \<Rightarrow> handshake_failed c e))"

text \<open>The continuations of the promises a handler settled, run in the order of
  settlement once the handler has returned.\<close>

fun run_continuations ::
  "runtime \<Rightarrow> client \<times> effect list \<Rightarrow> (waiter \<times> outcome) list \<Rightarrow> client \<times> effect list" where
  "run_continuations rt (c, effs) [] = (c, effs)"
| "run_continuations rt (c, effs) ((w, oc) # r) =
     (case continue rt c w oc of (c1, effs1) \<Rightarrow> run_continuations rt (c1, effs @ effs1) r)"

section \<open>Starting, and the events of the transports\<close>

text \<open>
  \<open>start()\<close> up to its first \<open>await\<close> or its return; \<open>p\<close> is the handle that
  \<open>spawn\<close> returns. A \<open>StartSettled\<close> among the effects says that the promise of
  \<open>start()\<close> is settled already; otherwise it is pending on the handshake. The
  environment passed to \<open>spawn\<close> is given by its overrides.
\<close>

definition start :: "host \<Rightarrow> proc \<Rightarrow> client \<Rightarrow> client \<times> effect list" where
  "start h p c =
     (if process c \<noteq> None then (c, [StartSettled (Resolved JUndefined)])
      else
        (let workspaceFolder = workspaceFolders0 h
         in if transport c = ''stdio'' then
              (case required (command (config c)) of
                 None \<Rightarrow>
                   (c, [StartSettled (Rejected (Error ''stdio transport requires a `command` in server config''))])
               | Some cmd0 \<Rightarrow>
                   (let cmd = resolvePlaceholders h cmd0 workspaceFolder;
                        as = map (\<lambda>a. resolvePlaceholders h a workspaceFolder)
                               (case args (config c) of None \<Rightarrow> [] | Some xs \<Rightarrow> xs);
                        configEnv = resolveEnvPlaceholders h (env_overrides (config c)) workspaceFolder
                    in initialize_send (c\<lparr>process := Some p\<rparr>)
                         [Log (LogStarting cmd as),
                          Spawn cmd as (case configEnv of None \<Rightarrow> [] | Some kvs \<Rightarrow> kvs)]))
            else if transport c = ''websocket'' then
              (case required (url (config c)) of
                 None \<Rightarrow>
                   (c, [StartSettled (Rejected (Error ''WebSocket transport requires a `url` in server config''))])
               | Some u0 \<Rightarrow>
                   (let u = resolvePlaceholders h u0 workspaceFolder
                    in (c\<lparr>ws := Some \<lparr>readyState = 0\<rparr>\<rparr>,
                        [Log (LogWsConnecting u), WsConnect u, StartSettled (Resolved JUndefined)])))
            else if transport c = ''http'' then
              (case required (url (config c)) of
                 None \<Rightarrow>
                   (c, [StartSettled (Rejected (Error ''HTTP transport requires a `url` in server config''))])
               | Some u0 \<Rightarrow>
                   (let u = resolvePlaceholders h u0 workspaceFolder
                    in initialize_send (c\<lparr>httpUrl := Some u\<rparr>) [Log (LogHttp u)]))
            else
              (c, [StartSettled (Rejected (Error (''Unsupported MCP transport type: '' @ transport c)))])))"

text \<open>A chunk arrives on the child's standard output.\<close>

definition on_stdout_data :: "runtime \<Rightarrow> client \<Rightarrow> string \<Rightarrow> client \<times> effect list" where
  "on_stdout_data rt c data =
     (case handleData rt c data of (c1, effs, settled) \<Rightarrow> run_continuations rt (c1, effs) settled)"

text \<open>The socket reports \<open>open\<close> (the library has set its \<open>readyState\<close> to 1): the
  handler runs the handshake.\<close>

definition on_ws_open :: "client \<Rightarrow> client \<times> effect list" where
  "on_ws_open c =
     initialize_send (c\<lparr>ws := map_option (\<lambda>s. s\<lparr>readyState := 1\<rparr>) (ws c)\<rparr>) [Log LogWsConnected]"

text \<open>A text frame arrives on the socket: it is one message, parsed whole.\<close>

definition on_ws_message :: "runtime \<Rightarrow> client \<Rightarrow> string \<Rightarrow> client \<times> effect list" where
  "on_ws_message rt c t =
     (case json_parse rt t of
        None \<Rightarrow> (c, [Log (LogIncoming t), Log (LogWsParseFailed t)])
      | Some msg \<Rightarrow>
          (case handleMessage c msg of
             Inl e \<Rightarrow> (c, [Log (LogIncoming t), Log (LogWsParseFailed t)])
           | Inr (c1, None) \<Rightarrow> (c1, [Log (LogIncoming t)])
           | Inr (c1, Some (w, oc)) \<Rightarrow> run_continuations rt (c1, [Log (LogIncoming t)]) [(w, oc)]))"

text \<open>How a POST issued by \<open>postJson\<close> ends: the request fails (or cannot be built),
  or the response body is complete.\<close>

datatype post_result = PostFailed error | PostBody string

text \<open>The promise of \<open>postJson\<close>, and the promise that the HTTP branch of
  \<open>sendRequest\<close> chains on it.\<close>

definition postJson :: "runtime \<Rightarrow> post_result \<Rightarrow> outcome" where
  "postJson rt r =
     (case r of
        PostFailed e \<Rightarrow> Rejected e
      | PostBody b \<Rightarrow>
          (case json_parse rt b of
             None \<Rightarrow> Rejected (Error ''Failed to parse HTTP JSON-RPC response'')
           | Some resp \<Rightarrow> Resolved resp))"

definition http_outcome :: "runtime \<Rightarrow> post_result \<Rightarrow> outcome" where
  "http_outcome rt r =
     (case postJson rt r of
        Rejected e \<Rightarrow> Rejected e
      | Resolved resp \<Rightarrow>
          (case get_prop resp ''error'' of
             None \<Rightarrow> Rejected TypeError
           | Some e \<Rightarrow>
               if truthy e then Rejected (ServerError (prop_of e ''message'') (prop_of e ''code''))
               else Resolved (prop_of resp ''result'')))"

text \<open>The POST that was issued for the waiter \<open>w\<close> ends with \<open>r\<close>.\<close>

definition http_response :: "runtime \<Rightarrow> client \<Rightarrow> waiter \<Rightarrow> post_result \<Rightarrow> client \<times> effect list" where
  "http_response rt c w r = continue rt c w (http_outcome rt r)"

section \<open>Runs of a session\<close>

text \<open>
  What happens to a session: calls of its public methods by the host (\<open>CallTool k\<close> is
  the call of \<open>callTool\<close> whose promise is numbered \<open>k\<close>) and events of its
  transport. \<open>HttpResponse w r\<close> is the end of a POST issued for \<open>w\<close>.
\<close>

datatype event =
    Start proc
  | Stop
  | CallTool nat string json
  | StdoutData string
  | ProcExit
  | WsOpen
  | WsMessage string
  | WsClosed
  | HttpResponse waiter post_result

definition step :: "runtime \<Rightarrow> host \<Rightarrow> client \<Rightarrow> event \<Rightarrow> client \<times> effect list" where
  "step rt h c ev =
     (case ev of
        Start p \<Rightarrow> start h p c
      | Stop \<Rightarrow> stop c
      | CallTool k name arguments \<Rightarrow>
          (case callTool c k name arguments of
             (c1, effs, None) \<Rightarrow> (c1, effs)
           | (c1, effs, Some e) \<Rightarrow> (c1, effs @ [Settled k (Rejected e)]))
      | StdoutData data \<Rightarrow> on_stdout_data rt c data
      | ProcExit \<Rightarrow> on_exit c
      | WsOpen \<Rightarrow> on_ws_open c
      | WsMessage t \<Rightarrow> on_ws_message rt c t
      | WsClosed \<Rightarrow> on_ws_close c
      | HttpResponse w r \<Rightarrow> http_response rt c w r)"

fun run :: "runtime \<Rightarrow> host \<Rightarrow> client \<Rightarrow> event list \<Rightarrow> client \<times> effect list" where
  "run rt h c [] = (c, [])"
| "run rt h c (ev # evs) =
     (case step rt h c ev of (c1, effs1) \<Rightarrow>
        (case run rt h c1 evs of (c2, effs2) \<Rightarrow> (c2, effs1 @ effs2)))"

text \<open>The id of a request put on a transport, and the ids of all requests among some
  effects, in the order they were sent.\<close>

fun request_id :: "effect \<Rightarrow> nat option" where
  "request_id (StdinWrite (Request i m p)) = Some i"
| "request_id (WsSend (Request i m p)) = Some i"
| "request_id (Post u (Request i m p) w) = Some i"
| "request_id e = None"

definition sent_ids :: "effect list \<Rightarrow> nat list" where
  "sent_ids effs = List.map_filter request_id effs"

text \<open>The lines for which \<open>handleData\<close> reached \<open>JSON.parse\<close>: each is logged as
  incoming right before the call.\<close>

fun incoming_line :: "effect \<Rightarrow> string option" where
  "incoming_line (Log (LogIncoming l)) = Some l"
| "incoming_line e = None"

definition parsed_lines :: "effect list \<Rightarrow> string list" where
  "parsed_lines effs = List.map_filter incoming_line effs"


text \<open>
  Messages arriving one after the other, each passed to \<open>handleMessage\<close>; a message
  on which it throws is dropped, as both \<open>handleData\<close> and the socket's message
  handler do. The result lists the promises settled, in order.
\<close>

fun deliver :: "client \<Rightarrow> json list \<Rightarrow> client \<times> (waiter \<times> outcome) list" where
  "deliver c [] = (c, [])"
| "deliver c (m # ms) =
     (case handleMessage c m of
        Inl e \<Rightarrow> deliver c ms
      | Inr (c1, None) \<Rightarrow> deliver c1 ms
      | Inr (c1, Some st) \<Rightarrow> (case deliver c1 ms of (c2, sts) \<Rightarrow> (c2, st # sts)))"

section \<open>Strings with placeholders, as the specification describes them\<close>







section \<open>Frames of a stream\<close>

text \<open>The complete lines of a text (those that a newline ends) and what follows the
  last newline, as \<open>handleData\<close> takes them from \<open>split\<close>; and the messages that the
  lines which are not blank parse to.\<close>

definition frames :: "string \<Rightarrow> string list" where
  "frames s = butlast (split_on (\<lambda>ch. ch = CHR 0x0A) s)"

definition fragment :: "string \<Rightarrow> string" where
  "fragment s = last (split_on (\<lambda>ch. ch = CHR 0x0A) s)"

definition parsed_messages :: "runtime \<Rightarrow> string list \<Rightarrow> json list" where
  "parsed_messages rt ls = List.map_filter (json_parse rt) (filter (\<lambda>l. \<not> blank l) ls)"

section \<open>Example sessions\<close>

definition stdio_cfg :: server_config where
  "stdio_cfg = \<lparr>cfg_type = None, command = Some ''node'', args = Some [''server.js''],
     env_overrides = None, url = None\<rparr>"

definition ws_cfg :: server_config where
  "ws_cfg = \<lparr>cfg_type = Some ''websocket'', command = None, args = None,
     env_overrides = None, url = Some ''ws://127.0.0.1:9000''\<rparr>"

definition http_cfg :: server_config where
  "http_cfg = \<lparr>cfg_type = Some ''http'', command = None, args = None,
     env_overrides = None, url = Some ''http://127.0.0.1:9000''\<rparr>"

definition live_proc :: proc where
  "live_proc = \<lparr>killed = False, stdin = True\<rparr>"

definition some_host :: host where
  "some_host = \<lparr>env = [''FOO'' \<mapsto> ''bar'', ''HOME'' \<mapsto> ''/home/u''],
     workspaceFolders0 = Some ''/work/proj'',
     cwd = ''/'', platform = ''linux''\<rparr>"

text \<open>A server's answers, and a runtime whose \<open>JSON.parse\<close> knows three texts:
  \<open>I\<close> is a good answer to \<open>initialize\<close> (id 1), \<open>T\<close> a good answer to
  \<open>tools/list\<close> (id 2), \<open>E\<close> an error answer to request 1.\<close>

definition init_answer :: json where
  "init_answer =
     JObj [(''jsonrpc'', JStr ''2.0''), (''id'', JNum 1),
           (''result'', JObj [(''protocolVersion'', JStr ''2024-11-05''), (''capabilities'', JObj []),
              (''serverInfo'', JObj [(''name'', JStr ''mock''), (''version'', JStr ''0.1'')])])]"

definition tools_answer :: json where
  "tools_answer =
     JObj [(''jsonrpc'', JStr ''2.0''), (''id'', JNum 2),
           (''result'', JObj [(''tools'', JArr [JObj [(''name'', JStr ''echo'')]])])]"

definition error_answer :: json where
  "error_answer =
     JObj [(''jsonrpc'', JStr ''2.0''), (''id'', JNum 1),
           (''error'', JObj [(''code'', JNum (- 32601)), (''message'', JStr ''Unknown'')])]"

definition some_runtime :: runtime where
  "some_runtime =
     \<lparr>json_parse = [''I'' \<mapsto> init_answer, ''T'' \<mapsto> tools_answer, ''E'' \<mapsto> error_answer],
      global_WebSocket_OPEN = Some 1\<rparr>"

text \<open>The stdio session after a complete handshake.\<close>

definition ready_stdio :: client where
  "ready_stdio = fst (run some_runtime some_host (new_client stdio_cfg)
      [Start live_proc, StdoutData [CHR ''I'', CHR 0x0A], StdoutData [CHR ''T'', CHR 0x0A]])"

definition two_pending :: client where
  "two_pending = (new_client stdio_cfg)\<lparr>process := Some live_proc, requestId := 2,
      pendingRequests := [1 \<mapsto> Caller 10, 2 \<mapsto> Caller 20]\<rparr>"


text \<open>A session whose counter has reached \<open>2^53\<close> with the request of that id still
  pending.\<close>

definition saturated :: client where
  "saturated = (new_client stdio_cfg)\<lparr>process := Some live_proc, requestId := 2 ^ 53,
      pendingRequests := [2 ^ 53 \<mapsto> Caller 0]\<rparr>"

section \<open>What every step of a session maintains\<close>

text \<open>
  A step from \<open>c\<close> to \<open>c'\<close> with effects \<open>effs\<close> keeps the configuration, never
  lowers the counter, adds pending entries only at keys up to the new counter (and none
  at all on the HTTP transport), and, while the counter is below \<open>2^53\<close>, sends
  requests with ids in increasing order that lie above the old counter and not above
  the new one.
\<close>

definition step_ok :: "client \<Rightarrow> client \<times> effect list \<Rightarrow> bool" where
  "step_ok c r =
     (case r of (c', effs) \<Rightarrow>
        config c' = config c \<and> requestId c \<le> requestId c' \<and>
        (\<forall>k. pendingRequests c' k \<noteq> None \<longrightarrow>
           pendingRequests c k \<noteq> None \<or> (transport c \<noteq> ''http'' \<and> k \<le> requestId c')) \<and>
        (requestId c' < 2 ^ 53 \<longrightarrow>
           sorted_wrt (<) (sent_ids effs) \<and>
           (\<forall>i \<in> set (sent_ids effs). requestId c < i \<and> i \<le> requestId c')))"

section \<open>Unfolding the model on examples\<close>

lemmas ex_defs = stdio_cfg_def ws_cfg_def http_cfg_def live_proc_def some_host_def
  init_answer_def tools_answer_def error_answer_def some_runtime_def new_client_def

lemmas run_defs = step_def start_def stop_def transport_def required_def resolvePlaceholders_def
  resolveEnvPlaceholders_def initialize_send_def discoverTools_send_def sendRequest_def has_stdin_def
  js_incr_def Let_def on_stdout_data_def handleData_def handleLine_def handleMessage_def blank_def
  js_space_def continue_def initialize_resolved_def discoverTools_resolved_def loggable_tools_def
  handshake_failed_def handshake_done_def sendNotification_def callTool_def on_exit_def
  on_ws_close_def on_ws_open_def on_ws_message_def http_response_def http_outcome_def postJson_def
  response_outcome_def prop_of_def match_token_def placeholder_value_def WsClient_OPEN_def
  isConnected_def initialize_params_def

section \<open>Stopping a session\<close>

text \<open>
  C8. \<open>stop()\<close> has no failing branch, whatever the state of the session (also before
  \<open>start()\<close> has completed). After it the tool list is empty, the server identity is
  cleared and the session is not connected; a second \<open>stop()\<close> changes nothing and
  touches no transport.
\<close>

theorem stop_idempotent:
  "tools (fst (stop c)) = JArr [] \<and> serverInfo (fst (stop c)) = JNull \<and>
   \<not> isConnected (fst (stop c)) \<and>
   process (fst (stop c)) = None \<and> ws (fst (stop c)) = None \<and> httpUrl (fst (stop c)) = None \<and>
   stop (fst (stop c)) = (fst (stop c), [])"
  by (simp add: stop_def isConnected_def)


section \<open>Invariants of the steps\<close>

lemma sent_ids_simps [simp]:
  "sent_ids [] = []"
  "sent_ids (e # es) = (case request_id e of None \<Rightarrow> sent_ids es | Some i \<Rightarrow> i # sent_ids es)"
  "sent_ids (xs @ ys) = sent_ids xs @ sent_ids ys"
  by (simp_all add: sent_ids_def map_filter_def split: option.splits)

lemma step_ok_refl [simp]: "step_ok c (c, [])"
  by (simp add: step_ok_def)

lemma step_ok_trans:
  assumes a: "step_ok c (c1, e1)" and b: "step_ok c1 (c2, e2)"
  shows "step_ok c (c2, e1 @ e2)"
proof -
  have cfg: "config c1 = config c" "config c2 = config c1"
    using a b by (simp_all add: step_ok_def)
  have t: "transport c1 = transport c" using cfg by (simp add: transport_def)
  have le: "requestId c \<le> requestId c1" "requestId c1 \<le> requestId c2"
    using a b by (simp_all add: step_ok_def)
  have p1: "\<And>k. pendingRequests c1 k \<noteq> None \<Longrightarrow>
           pendingRequests c k \<noteq> None \<or> (transport c \<noteq> ''http'' \<and> k \<le> requestId c1)"
    using a by (simp add: step_ok_def)
  have p2: "\<And>k. pendingRequests c2 k \<noteq> None \<Longrightarrow>
           pendingRequests c1 k \<noteq> None \<or> (transport c \<noteq> ''http'' \<and> k \<le> requestId c2)"
    using b t by (simp add: step_ok_def)
  have p: "\<forall>k. pendingRequests c2 k \<noteq> None \<longrightarrow>
           pendingRequests c k \<noteq> None \<or> (transport c \<noteq> ''http'' \<and> k \<le> requestId c2)"
    using p1 p2 le by (meson le_trans)
  have s: "requestId c2 < 2 ^ 53 \<longrightarrow>
           sorted_wrt (<) (sent_ids (e1 @ e2)) \<and>
           (\<forall>i \<in> set (sent_ids (e1 @ e2)). requestId c < i \<and> i \<le> requestId c2)"
  proof
    assume lt: "requestId c2 < 2 ^ 53"
    then have lt1: "requestId c1 < 2 ^ 53" using le by simp
    have s1: "sorted_wrt (<) (sent_ids e1)" "\<forall>i \<in> set (sent_ids e1). requestId c < i \<and> i \<le> requestId c1"
      using a lt1 by (simp_all add: step_ok_def)
    have s2: "sorted_wrt (<) (sent_ids e2)" "\<forall>i \<in> set (sent_ids e2). requestId c1 < i \<and> i \<le> requestId c2"
      using b lt by (simp_all add: step_ok_def)
    show "sorted_wrt (<) (sent_ids (e1 @ e2)) \<and>
           (\<forall>i \<in> set (sent_ids (e1 @ e2)). requestId c < i \<and> i \<le> requestId c2)"
      using s1 s2 le by (fastforce simp: sorted_wrt_append)
  qed
  show ?thesis
    using cfg le p s by (simp add: step_ok_def)
qed

lemma js_incr_le: "n \<le> js_incr n"
  by (simp add: js_incr_def)

lemma js_incr_exact: "js_incr n < 2 ^ 53 \<Longrightarrow> js_incr n = Suc n"
  by (simp add: js_incr_def split: if_splits)

lemma step_ok_sendRequest:
  "sendRequest c w m p = (c', effs, r) \<Longrightarrow> step_ok c (c', effs)"
  using js_incr_le [of "requestId c"] js_incr_exact [of "requestId c"]
  by (auto simp: sendRequest_def step_ok_def Let_def transport_def split: option.splits if_splits)


lemma step_ok_upd [simp]:
  "step_ok c (c\<lparr>buffer := b\<rparr>, [])"
  "step_ok c (c\<lparr>serverInfo := v\<rparr>, [])"
  "step_ok c (c\<lparr>tools := t\<rparr>, [])"
  "step_ok c (c\<lparr>process := pr\<rparr>, [])"
  "step_ok c (c\<lparr>ws := so\<rparr>, [])"
  "step_ok c (c\<lparr>httpUrl := hu\<rparr>, [])"
  by (simp_all add: step_ok_def transport_def)

lemma step_ok_quiet:
  "step_ok c (c', effs) \<Longrightarrow> sent_ids a = [] \<Longrightarrow> sent_ids b = [] \<Longrightarrow> step_ok c (c', a @ effs @ b)"
  by (simp add: step_ok_def)

lemma step_ok_same: "sent_ids effs = [] \<Longrightarrow> step_ok c (c, effs)"
  by (simp add: step_ok_def)

lemma step_ok_handshake_failed: "step_ok c (handshake_failed c e)"
  by (simp add: handshake_failed_def step_ok_def)

lemma step_ok_handshake_done: "step_ok c (handshake_done c)"
  by (simp add: handshake_done_def step_ok_def)

lemma handshake_failed_state: "fst (handshake_failed c e) = c" "sent_ids (snd (handshake_failed c e)) = []"
  by (simp_all add: handshake_failed_def)

lemma handshake_done_state: "fst (handshake_done c) = c" "sent_ids (snd (handshake_done c)) = []"
  by (simp_all add: handshake_done_def)

lemma step_ok_send_then_fail:
  assumes "sent_ids effs = []"
  shows "step_ok c (case sendRequest c w m p of
        (c1, effs1, None) \<Rightarrow> (c1, effs @ effs1)
      | (c1, effs1, Some e) \<Rightarrow>
          (case handshake_failed c1 e of (c2, effs2) \<Rightarrow> (c2, effs @ effs1 @ effs2)))"
proof -
  obtain c1 effs1 r where sr: "sendRequest c w m p = (c1, effs1, r)" by (cases "sendRequest c w m p") auto
  have ok: "step_ok c (c1, effs1)" using sr by (rule step_ok_sendRequest)
  show ?thesis
  proof (cases r)
    case None
    then show ?thesis using sr step_ok_quiet [OF ok assms, of "[]"] by simp
  next
    case (Some e)
    obtain c2 effs2 where hf: "handshake_failed c1 e = (c2, effs2)" by (cases "handshake_failed c1 e") auto
    then have "c2 = c1" "sent_ids effs2 = []" using handshake_failed_state [of c1 e] by simp_all
    then show ?thesis using sr Some hf step_ok_quiet [OF ok assms, of effs2] by simp
  qed
qed

lemma step_ok_initialize_send: "sent_ids effs = [] \<Longrightarrow> step_ok c (initialize_send c effs)"
  unfolding initialize_send_def by (rule step_ok_send_then_fail)

lemma step_ok_discoverTools_send: "sent_ids effs = [] \<Longrightarrow> step_ok c (discoverTools_send c effs)"
  unfolding discoverTools_send_def by (rule step_ok_send_then_fail)

lemma sendNotification_quiet: "sendNotification rt c m p = Inr effs \<Longrightarrow> sent_ids effs = []"
  by (auto simp: sendNotification_def Let_def split: option.splits if_splits)

lemma step_ok_mono_start:
  "step_ok c1 r \<Longrightarrow> step_ok c (c1, []) \<Longrightarrow> step_ok c r"
  using step_ok_trans [of c c1 "[]" "fst r" "snd r"] by simp

lemma step_ok_initialize_resolved: "step_ok c (initialize_resolved rt c v)"
proof -
  let ?c1 = "c\<lparr>serverInfo := v\<rparr>"
  have hf: "\<And>e pre. sent_ids pre = [] \<Longrightarrow>
      step_ok ?c1 (case handshake_failed ?c1 e of (c2, effs2) \<Rightarrow> (c2, pre @ effs2))"
    by (simp add: handshake_failed_def step_ok_same)
  have "step_ok ?c1 (initialize_resolved rt c v)"
  proof (cases "get_prop v ''serverInfo''")
    case None
    then show ?thesis using hf [of "[]"] by (simp add: initialize_resolved_def)
  next
    case (Some si)
    show ?thesis
    proof (cases "get_prop si ''name''")
      case None
      then show ?thesis using Some hf [of "[]"] by (simp add: initialize_resolved_def)
    next
      case n: (Some n)
      show ?thesis
      proof (cases "sendNotification rt ?c1 ''notifications/initialized'' (JObj [])")
        case (Inl e)
        then show ?thesis using Some n hf [of "[Log LogConnected]" e]
          by (simp add: initialize_resolved_def)
      next
        case (Inr effs)
        then have q: "sent_ids effs = []" by (rule sendNotification_quiet)
        have d: "step_ok ?c1 (discoverTools_send ?c1 (Log LogConnected # effs))"
          using q by (intro step_ok_discoverTools_send) simp
        have s: "step_ok ?c1 (?c1, Log LogConnected # effs)"
          using q by (intro step_ok_same) simp
        show ?thesis using Some n Inr d s
          by (auto simp: initialize_resolved_def Let_def split: list.splits effect.splits)
      qed
    qed
  qed
  then show ?thesis by (rule step_ok_mono_start) simp
qed

lemma step_ok_discoverTools_resolved: "step_ok c (discoverTools_resolved c v)"
proof (cases "get_prop v ''tools''")
  case None
  then show ?thesis by (simp add: discoverTools_resolved_def step_ok_handshake_failed)
next
  case (Some t)
  let ?c1 = "c\<lparr>tools := t\<rparr>"
  have "step_ok ?c1 (discoverTools_resolved c v)"
    using Some
    by (simp add: discoverTools_resolved_def handshake_failed_def handshake_done_def step_ok_same Let_def)
  then show ?thesis by (rule step_ok_mono_start) simp
qed

lemma step_ok_continue: "step_ok c (continue rt c w oc)"
  by (simp add: continue_def step_ok_same step_ok_initialize_resolved step_ok_discoverTools_resolved
        step_ok_handshake_failed step_ok_discoverTools_send split: waiter.splits outcome.splits)

lemma step_ok_run_continuations:
  "step_ok c0 (c, effs) \<Longrightarrow> step_ok c0 (run_continuations rt (c, effs) sts)"
proof (induction sts arbitrary: c effs)
  case Nil
  then show ?case by simp
next
  case (Cons st sts)
  obtain w oc where st: "st = (w, oc)" by (cases st)
  obtain c1 effs1 where k: "continue rt c w oc = (c1, effs1)" by (cases "continue rt c w oc")
  have "step_ok c (c1, effs1)" using step_ok_continue [of c rt w oc] k by simp
  then have "step_ok c0 (c1, effs @ effs1)" using Cons.prems by (rule step_ok_trans [rotated])
  then show ?case using Cons.IH st k by simp
qed

lemma step_ok_handleMessage:
  "handleMessage c msg = Inr (c', st) \<Longrightarrow> step_ok c (c', [])"
  by (auto simp: handleMessage_def step_ok_def split: option.splits if_splits)

lemma step_ok_handleLine:
  assumes "step_ok c0 (c, effs)"
  shows "step_ok c0 (fst (handleLine rt (c, effs, sts) l), fst (snd (handleLine rt (c, effs, sts) l)))"
proof -
  have q: "\<And>x. step_ok c0 (c, effs @ x) \<longleftrightarrow> step_ok c0 (c, effs @ x @ [])" by simp
  have a: "\<And>x. sent_ids x = [] \<Longrightarrow> step_ok c0 (c, effs @ x)"
    using step_ok_quiet [OF assms, of "[]"] by simp
  have b: "\<And>c1 st x. handleMessage c msg = Inr (c1, st) \<Longrightarrow> sent_ids x = [] \<Longrightarrow> step_ok c0 (c1, effs @ x)" for msg
  proof -
    fix c1 st x assume h: "handleMessage c msg = Inr (c1, st)" and x: "sent_ids x = []"
    have "step_ok c (c1, [])" using h by (rule step_ok_handleMessage)
    then have "step_ok c0 (c1, effs @ [])" using assms by (rule step_ok_trans [rotated])
    then show "step_ok c0 (c1, effs @ x)" using x step_ok_quiet [of c0 c1 effs "[]" x] by simp
  qed
  show ?thesis
    using assms a b
    by (auto simp: handleLine_def split: option.splits sum.splits prod.splits)
qed

lemma step_ok_foldl_handleLine:
  "step_ok c0 (fst acc, fst (snd acc)) \<Longrightarrow>
   step_ok c0 (fst (foldl (handleLine rt) acc ls), fst (snd (foldl (handleLine rt) acc ls)))"
proof (induction ls arbitrary: acc)
  case Nil
  then show ?case by simp
next
  case (Cons l ls)
  obtain c effs sts where acc: "acc = (c, effs, sts)" by (cases acc)
  show ?case using Cons.IH [of "handleLine rt acc l"] step_ok_handleLine [of c0 c effs rt sts l] Cons.prems acc
    by simp
qed

lemma step_ok_handleData:
  "handleData rt c d = (c', effs, sts) \<Longrightarrow> step_ok c (c', effs)"
  using step_ok_foldl_handleLine [of c "(c\<lparr>buffer := last (split_on (\<lambda>ch. ch = CHR 0x0A) (buffer c @ d))\<rparr>, [], [])" rt
      "butlast (split_on (\<lambda>ch. ch = CHR 0x0A) (buffer c @ d))"]
  by (simp add: handleData_def Let_def)

lemma step_ok_on_stdout_data: "step_ok c (on_stdout_data rt c d)"
proof -
  obtain c1 effs sts where h: "handleData rt c d = (c1, effs, sts)" by (cases "handleData rt c d") auto
  then show ?thesis using step_ok_run_continuations [OF step_ok_handleData [OF h]]
    by (simp add: on_stdout_data_def)
qed


lemma step_ok_start: "step_ok c (start h p c)"
proof -
  have i: "\<And>c1 effs. step_ok c (c1, []) \<Longrightarrow> sent_ids effs = [] \<Longrightarrow> step_ok c (initialize_send c1 effs)"
    using step_ok_initialize_send step_ok_mono_start by blast
  have w: "\<And>so effs. sent_ids effs = [] \<Longrightarrow> step_ok c (c\<lparr>ws := so\<rparr>, effs)"
    using step_ok_quiet [OF step_ok_upd(5), of "[]" _ c] by simp
  show ?thesis
    unfolding start_def Let_def
    by (auto simp: step_ok_same intro!: i w split: option.splits)
qed

lemma step_ok_stop: "step_ok c (stop c)"
  by (auto simp: stop_def step_ok_def transport_def split: option.splits)

lemma step_ok_on_exit: "step_ok c (on_exit c)"
  by (simp add: on_exit_def step_ok_def transport_def)

lemma step_ok_on_ws_close: "step_ok c (on_ws_close c)"
  by (simp add: on_ws_close_def step_ok_def transport_def)

lemma step_ok_on_ws_open: "step_ok c (on_ws_open c)"
  unfolding on_ws_open_def
  by (rule step_ok_mono_start [OF step_ok_initialize_send]) simp_all

lemma step_ok_on_ws_message: "step_ok c (on_ws_message rt c t)"
proof -
  have r: "\<And>c1 st w oc. handleMessage c msg = Inr (c1, st) \<Longrightarrow>
      step_ok c (run_continuations rt (c1, [Log (LogIncoming t)]) [(w, oc)])" for msg
  proof -
    fix c1 st w oc assume h: "handleMessage c msg = Inr (c1, st)"
    have "step_ok c (c1, [] @ [] @ [Log (LogIncoming t)])"
      by (rule step_ok_quiet [OF step_ok_handleMessage [OF h]]) simp_all
    then show "step_ok c (run_continuations rt (c1, [Log (LogIncoming t)]) [(w, oc)])"
      using step_ok_run_continuations [of c c1 "[Log (LogIncoming t)]" rt "[(w, oc)]"] by simp
  qed
  have q: "\<And>c1 st. handleMessage c msg = Inr (c1, st) \<Longrightarrow> step_ok c (c1, [Log (LogIncoming t)])" for msg
    using step_ok_quiet [OF step_ok_handleMessage, of c msg _ _ "[]" "[Log (LogIncoming t)]"] by simp
  show ?thesis
    unfolding on_ws_message_def
    using r q by (auto simp: step_ok_same split: option.splits sum.splits prod.splits simp del: run_continuations.simps)
qed

lemma step_ok_http_response: "step_ok c (http_response rt c w r)"
  by (simp add: http_response_def step_ok_continue)

lemma step_ok_callTool: "callTool c k n a = (c', effs, r) \<Longrightarrow> step_ok c (c', effs)"
  unfolding callTool_def by (rule step_ok_sendRequest)

lemma step_ok_step: "step_ok c (step rt h c ev)"
proof (cases ev)
  case (CallTool k n a)
  obtain c1 effs r where ct: "callTool c k n a = (c1, effs, r)" by (cases "callTool c k n a") auto
  have "step_ok c (c1, [] @ effs @ x)" if "sent_ids x = []" for x
    using that by (intro step_ok_quiet [OF step_ok_callTool [OF ct]]) simp_all
  from this [of "[]"] this [of "[Settled k (Rejected e)]" for e]
  show ?thesis using CallTool ct by (auto simp: step_def split: option.splits)
qed (simp_all add: step_def step_ok_start step_ok_stop step_ok_on_stdout_data step_ok_on_exit
       step_ok_on_ws_open step_ok_on_ws_message step_ok_on_ws_close step_ok_http_response)

lemma step_ok_run: "step_ok c (run rt h c evs)"
proof (induction evs arbitrary: c)
  case Nil
  then show ?case by simp
next
  case (Cons ev evs)
  obtain c1 effs1 where s: "step rt h c ev = (c1, effs1)" by (cases "step rt h c ev")
  obtain c2 effs2 where r: "run rt h c1 evs = (c2, effs2)" by (cases "run rt h c1 evs")
  have "step_ok c (c1, effs1)" using step_ok_step [of c rt h ev] s by simp
  moreover have "step_ok c1 (c2, effs2)" using Cons.IH [of c1] r by simp
  ultimately show ?case using s r by (simp add: step_ok_trans)
qed

section \<open>Request ids\<close>

text \<open>
  C5 (as amended). In every run of a session from its construction, over any events on
  any transport, as long as the counter has stayed below \<open>2^53\<close>: the ids of the
  requests sent are strictly increasing (hence distinct) and positive, every pending
  entry has an id that is not above the counter, and the next id to be allocated is the
  counter plus one, which is neither pending nor was ever sent.
\<close>

theorem ids_strictly_increasing:
  assumes "run rt h (new_client cfg) evs = (c, effs)" and "requestId c < 2 ^ 53"
  shows "sorted_wrt (<) (sent_ids effs) \<and>
         (\<forall>i \<in> set (sent_ids effs). 0 < i \<and> i \<le> requestId c) \<and>
         (\<forall>k \<in> dom (pendingRequests c). k \<le> requestId c) \<and>
         js_incr (requestId c) = requestId c + 1 \<and>
         js_incr (requestId c) \<notin> dom (pendingRequests c) \<and>
         js_incr (requestId c) \<notin> set (sent_ids effs)"
proof -
  have ok: "step_ok (new_client cfg) (c, effs)"
    using step_ok_run [of "new_client cfg" rt h evs] assms(1) by simp
  have a: "sorted_wrt (<) (sent_ids effs)" "\<forall>i \<in> set (sent_ids effs). 0 < i \<and> i \<le> requestId c"
    using ok assms(2) by (auto simp: step_ok_def new_client_def)
  have b: "\<forall>k \<in> dom (pendingRequests c). k \<le> requestId c"
    using ok by (auto simp: step_ok_def new_client_def)
  have i: "js_incr (requestId c) = requestId c + 1" using assms(2) by (simp add: js_incr_def)
  have n1: "requestId c + 1 \<notin> dom (pendingRequests c)"
  proof
    assume "requestId c + 1 \<in> dom (pendingRequests c)"
    then have "requestId c + 1 \<le> requestId c" using b by blast
    then show False by simp
  qed
  have n2: "requestId c + 1 \<notin> set (sent_ids effs)"
  proof
    assume "requestId c + 1 \<in> set (sent_ids effs)"
    then have "requestId c + 1 \<le> requestId c" using a(2) by blast
    then show False by simp
  qed
  show ?thesis using a b i n1 n2 by simp
qed


text \<open>The run of the stdio example: handshake, then one call.\<close>

lemma stdio_example_counter:
  "requestId (fst (run some_runtime some_host (new_client stdio_cfg)
      [Start live_proc, StdoutData [CHR ''I'', CHR 0x0A], StdoutData [CHR ''T'', CHR 0x0A],
       CallTool 7 ''echo'' (JObj [])])) = 3"
  "sent_ids (snd (run some_runtime some_host (new_client stdio_cfg)
      [Start live_proc, StdoutData [CHR ''I'', CHR 0x0A], StdoutData [CHR ''T'', CHR 0x0A],
       CallTool 7 ''echo'' (JObj [])])) = [1, 2, 3]"
  by (simp_all add: ex_defs run_defs)

theorem ids_strictly_increasing_witness:
  "requestId (fst (run some_runtime some_host (new_client stdio_cfg)
      [Start live_proc, StdoutData [CHR ''I'', CHR 0x0A], StdoutData [CHR ''T'', CHR 0x0A],
       CallTool 7 ''echo'' (JObj [])])) < 2 ^ 53 \<and>
   sent_ids (snd (run some_runtime some_host (new_client stdio_cfg)
      [Start live_proc, StdoutData [CHR ''I'', CHR 0x0A], StdoutData [CHR ''T'', CHR 0x0A],
       CallTool 7 ''echo'' (JObj [])])) = [1, 2, 3] \<and>
   sorted_wrt (<) (sent_ids (snd (run some_runtime some_host (new_client stdio_cfg)
      [Start live_proc, StdoutData [CHR ''I'', CHR 0x0A], StdoutData [CHR ''T'', CHR 0x0A],
       CallTool 7 ''echo'' (JObj [])]))) \<and>
   js_incr (requestId (fst (run some_runtime some_host (new_client stdio_cfg)
      [Start live_proc, StdoutData [CHR ''I'', CHR 0x0A], StdoutData [CHR ''T'', CHR 0x0A],
       CallTool 7 ''echo'' (JObj [])]))) = 4"
proof -
  let ?r = "run some_runtime some_host (new_client stdio_cfg)
      [Start live_proc, StdoutData [CHR ''I'', CHR 0x0A], StdoutData [CHR ''T'', CHR 0x0A],
       CallTool 7 ''echo'' (JObj [])]"
  have lt: "requestId (fst ?r) < 2 ^ 53" by (simp only: stdio_example_counter) simp
  have "?r = (fst ?r, snd ?r)" by simp
  from ids_strictly_increasing [OF this lt]
  have "sorted_wrt (<) (sent_ids (snd ?r))" and "js_incr (requestId (fst ?r)) = requestId (fst ?r) + 1"
    by blast+
  then show ?thesis using lt stdio_example_counter by simp
qed

text \<open>At \<open>2^53\<close> the increment is lost: the next request gets the id of the request
  that is still pending and replaces its entry.\<close>

theorem id_reused_at_2_53:
  "pendingRequests saturated (2 ^ 53) = Some (Caller 0) \<and>
   sent_ids (fst (snd (callTool saturated 1 ''echo'' (JObj [])))) = [2 ^ 53] \<and>
   requestId (fst (callTool saturated 1 ''echo'' (JObj []))) = requestId saturated \<and>
   pendingRequests (fst (callTool saturated 1 ''echo'' (JObj []))) (2 ^ 53) = Some (Caller 1)"
  by (simp add: saturated_def callTool_def sendRequest_def new_client_def stdio_cfg_def live_proc_def
        transport_def has_stdin_def js_incr_def Let_def)

section \<open>Correlation of responses\<close>











lemma deliver_append:
  "deliver c (xs @ ys) =
     (fst (deliver (fst (deliver c xs)) ys), snd (deliver c xs) @ snd (deliver (fst (deliver c xs)) ys))"
  by (induction xs arbitrary: c) (auto split: sum.splits prod.splits option.splits)






section \<open>Unsolicited closure of the transport\<close>

lemma ready_stdio_pending: "pendingRequests ready_stdio = Map.empty"
  by (rule ext) (auto simp: ready_stdio_def ex_defs run_defs)

lemma ready_stdio_fields:
  "process ready_stdio = Some live_proc" "requestId ready_stdio = 2"
  "config ready_stdio = stdio_cfg" "tools ready_stdio = JArr [JObj [(''name'', JStr ''echo'')]]"
  "ws ready_stdio = None" "httpUrl ready_stdio = None" "isConnected ready_stdio"
  by (simp_all add: ready_stdio_def ex_defs run_defs)

text \<open>
  C1 (as amended). The handler of the child's \<open>exit\<close> event and the handler of the
  socket's \<open>close\<close> event clear the handle of the transport, write a line to the
  output channel and emit \<open>exit\<close> to the host. They leave the table of pending requests
  as it is and settle no promise: the client has no operation that rejects what is
  pending.
\<close>

theorem closure_keeps_pending:
  "pendingRequests (fst (on_exit c)) = pendingRequests c \<and> process (fst (on_exit c)) = None \<and>
   snd (on_exit c) = [Log LogProcessExited, EmitExit] \<and>
   pendingRequests (fst (on_ws_close c)) = pendingRequests c \<and> ws (fst (on_ws_close c)) = None \<and>
   snd (on_ws_close c) = [Log LogWsClosed, EmitExit]"
  by (simp add: on_exit_def on_ws_close_def)

text \<open>The claim as stated fails: a call is pending with id 3 when the child exits;
  after the handler it is still pending, and the handler's effects settle nothing.\<close>

theorem exit_leaves_request_pending:
  "pendingRequests (fst (callTool ready_stdio 7 ''echo'' (JObj []))) 3 = Some (Caller 7) \<and>
   pendingRequests (fst (on_exit (fst (callTool ready_stdio 7 ''echo'' (JObj []))))) 3 = Some (Caller 7) \<and>
   snd (on_exit (fst (callTool ready_stdio 7 ''echo'' (JObj [])))) = [Log LogProcessExited, EmitExit]"
  by (simp add: callTool_def sendRequest_def on_exit_def ready_stdio_fields ready_stdio_pending
       transport_def has_stdin_def js_incr_def Let_def stdio_cfg_def live_proc_def)

section \<open>Failures during the handshake\<close>








lemma stdio_error_answer_rejects_start:
  "snd (run some_runtime some_host (new_client stdio_cfg) [Start live_proc, StdoutData [CHR ''E'', CHR 0x0A]]) =
     [Log (LogStarting ''node'' [''server.js'']), Spawn ''node'' [''server.js''] [],
      Log (LogOutgoing (Request 1 ''initialize'' initialize_params)),
      StdinWrite (Request 1 ''initialize'' initialize_params),
      Log (LogIncoming ''E''),
      StartSettled (Rejected (ServerError (JStr ''Unknown'') (JNum (- 32601))))]"
  by (simp add: ex_defs run_defs)








section \<open>The connection predicate\<close>

text \<open>
  C3 (the code departs from the claim). \<open>isConnected\<close> reads the child-process handle
  only. A session on the HTTP transport whose \<open>start()\<close> has completed, with the tools
  discovered, is reported as not connected.
\<close>

theorem not_connected_after_http_start:
  "snd (run some_runtime some_host (new_client http_cfg)
      [Start live_proc, HttpResponse AwaitInitialize (PostBody ''I''),
       HttpResponse AwaitNotified (PostBody []), HttpResponse AwaitDiscover (PostBody ''T'')]) =
     [Log (LogHttp ''http://127.0.0.1:9000''),
      Post ''http://127.0.0.1:9000'' (Request 1 ''initialize'' initialize_params) AwaitInitialize,
      Log LogConnected,
      Post ''http://127.0.0.1:9000'' (Notification ''notifications/initialized'' (JObj [])) AwaitNotified,
      Post ''http://127.0.0.1:9000'' (Request 2 ''tools/list'' (JObj [])) AwaitDiscover,
      Log LogDiscovered, StartSettled (Resolved JUndefined)] \<and>
   tools (fst (run some_runtime some_host (new_client http_cfg)
      [Start live_proc, HttpResponse AwaitInitialize (PostBody ''I''),
       HttpResponse AwaitNotified (PostBody []), HttpResponse AwaitDiscover (PostBody ''T'')])) =
     JArr [JObj [(''name'', JStr ''echo'')]] \<and>
   \<not> isConnected (fst (run some_runtime some_host (new_client http_cfg)
      [Start live_proc, HttpResponse AwaitInitialize (PostBody ''I''),
       HttpResponse AwaitNotified (PostBody []), HttpResponse AwaitDiscover (PostBody ''T'')]))"
  by (simp add: ex_defs run_defs)

text \<open>The same on the websocket transport, and in general: the socket and the HTTP
  URL have no influence on \<open>isConnected\<close>.\<close>

lemma not_connected_after_ws_handshake:
  "tools (fst (run some_runtime some_host (new_client ws_cfg)
      [Start live_proc, WsOpen, WsMessage ''I'', WsMessage ''T''])) = JArr [JObj [(''name'', JStr ''echo'')]] \<and>
   \<not> isConnected (fst (run some_runtime some_host (new_client ws_cfg)
      [Start live_proc, WsOpen, WsMessage ''I'', WsMessage ''T'']))"
  by (simp add: ex_defs run_defs)

lemma isConnected_reads_process_only:
  "isConnected (c\<lparr>ws := s, httpUrl := u\<rparr>) = isConnected c"
  by (simp add: isConnected_def)

section \<open>Sending after stop\<close>

text \<open>
  C6 (as amended). After \<open>stop()\<close>, on every transport: \<open>sendRequest\<close> puts nothing
  on a transport and returns a rejected promise (\<open>MCP server not connected\<close> on stdio,
  \<open>MCP WebSocket not connected\<close> on websocket, \<open>HTTP transport not configured\<close> on
  HTTP), adding no pending entry; \<open>sendNotification\<close> puts nothing on a transport and
  returns without an error.
\<close>

theorem sends_after_stop:
  "sendNotification rt (fst (stop c)) m p = Inr [] \<and>
   snd (sendRequest (fst (stop c)) w m p) =
     ([], Some (Error (if transport c = ''http'' then ''HTTP transport not configured''
                       else if transport c = ''stdio'' then ''MCP server not connected''
                       else ''MCP WebSocket not connected''))) \<and>
   pendingRequests (fst (sendRequest (fst (stop c)) w m p)) =
     (if transport c = ''http'' then pendingRequests c
      else (pendingRequests c)(js_incr (requestId c) := None))"
  by (simp add: stop_def sendNotification_def sendRequest_def transport_def has_stdin_def Let_def
        required_def)

text \<open>The claim as stated fails for notifications: the notification that is written
  to the child before \<open>stop()\<close> is dropped without an error after it.\<close>

theorem notification_after_stop_dropped:
  "sendNotification some_runtime (fst (stop ready_stdio)) ''notifications/initialized'' (JObj []) = Inr [] \<and>
   sendNotification some_runtime ready_stdio ''notifications/initialized'' (JObj []) =
     Inr [Log (LogOutgoing (Notification ''notifications/initialized'' (JObj []))),
          StdinWrite (Notification ''notifications/initialized'' (JObj []))]"
  by (simp add: stop_def sendNotification_def transport_def has_stdin_def Let_def ready_stdio_fields
       stdio_cfg_def live_proc_def)



section \<open>Requests over HTTP\<close>

lemma http_pending_continue:
  "transport c = ''http'' \<Longrightarrow> pendingRequests (fst (continue rt c w oc)) = pendingRequests c"
  by (auto simp: continue_def initialize_resolved_def discoverTools_resolved_def discoverTools_send_def
        handshake_failed_def handshake_done_def sendNotification_def sendRequest_def transport_def Let_def
      split: waiter.splits outcome.splits option.splits)

text \<open>
  C10. On a session of the HTTP transport \<open>sendRequest\<close> leaves the table of pending
  requests as it is. When the transport is configured (\<open>httpUrl\<close> is a non-empty
  string) the call
  advances the one counter \<open>requestId\<close> by the same increment as the stream branch
  does, issues one POST carrying that id, and stays pending; the end of that POST settles
  the caller's promise with \<open>http_outcome\<close>, a function of the POST's result alone, and
  changes nothing in the session. Without a URL the call is rejected and allocates
  nothing. Over the whole life of such a session the table stays empty.
\<close>

theorem http_request_leaves_pending_table:
  "(transport c = ''http'' \<longrightarrow>
      pendingRequests (fst (sendRequest c w m p)) = pendingRequests c \<and>
      (\<forall>u. required (httpUrl c) = Some u \<longrightarrow>
         sendRequest c w m p =
           (c\<lparr>requestId := js_incr (requestId c)\<rparr>,
            [Post u (Request (js_incr (requestId c)) m p) w], None)) \<and>
      (required (httpUrl c) = None \<longrightarrow>
         sendRequest c w m p = (c, [], Some (Error ''HTTP transport not configured''))) \<and>
      http_response rt c (Caller k) r = (c, [Settled k (http_outcome rt r)]) \<and>
      pendingRequests (fst (http_response rt c w r)) = pendingRequests c \<and>
      pendingRequests (fst (run rt h (new_client (config c)) evs)) = Map.empty) \<and>
   (transport c \<noteq> ''http'' \<longrightarrow>
      requestId (fst (sendRequest c w m p)) = js_incr (requestId c))"
proof (intro conjI impI)
  assume t: "transport c = ''http''"
  show "pendingRequests (fst (sendRequest c w m p)) = pendingRequests c"
    using t by (simp add: sendRequest_def Let_def split: option.splits)
  show "\<forall>u. required (httpUrl c) = Some u \<longrightarrow>
         sendRequest c w m p =
           (c\<lparr>requestId := js_incr (requestId c)\<rparr>,
            [Post u (Request (js_incr (requestId c)) m p) w], None)"
    using t by (simp add: sendRequest_def Let_def)
  show "http_response rt c (Caller k) r = (c, [Settled k (http_outcome rt r)])"
    by (simp add: http_response_def continue_def)
  show "pendingRequests (fst (http_response rt c w r)) = pendingRequests c"
    using t by (simp add: http_response_def http_pending_continue)
  show "pendingRequests (fst (run rt h (new_client (config c)) evs)) = Map.empty"
  proof (rule ext)
    fix j
    obtain c' effs where r: "run rt h (new_client (config c)) evs = (c', effs)"
      by (cases "run rt h (new_client (config c)) evs")
    have "transport (new_client (config c)) = ''http''"
      using t by (simp add: transport_def new_client_def)
    moreover have "step_ok (new_client (config c)) (c', effs)"
      using step_ok_run [of "new_client (config c)" rt h evs] r by simp
    ultimately have "pendingRequests c' j = None"
      by (auto simp: step_ok_def new_client_def)
    then show "pendingRequests (fst (run rt h (new_client (config c)) evs)) j = None"
      using r by simp
  qed
next
  assume "required (httpUrl c) = None" and "transport c = ''http''"
  then show "sendRequest c w m p = (c, [], Some (Error ''HTTP transport not configured''))"
    by (simp add: sendRequest_def)
next
  assume "transport c \<noteq> ''http''"
  then show "requestId (fst (sendRequest c w m p)) = js_incr (requestId c)"
    by (simp add: sendRequest_def Let_def split: option.splits)
qed


theorem http_request_leaves_pending_table_witness:
  "transport ((new_client http_cfg)\<lparr>httpUrl := Some ''http://127.0.0.1:9000''\<rparr>) = ''http'' \<and>
   httpUrl ((new_client http_cfg)\<lparr>httpUrl := Some ''http://127.0.0.1:9000''\<rparr>) = Some ''http://127.0.0.1:9000'' \<and>
   sendRequest ((new_client http_cfg)\<lparr>httpUrl := Some ''http://127.0.0.1:9000''\<rparr>) (Caller 5) ''tools/call'' JNull =
     ((new_client http_cfg)\<lparr>httpUrl := Some ''http://127.0.0.1:9000'', requestId := 1\<rparr>,
      [Post ''http://127.0.0.1:9000'' (Request 1 ''tools/call'' JNull) (Caller 5)], None) \<and>
   http_response some_runtime ((new_client http_cfg)\<lparr>httpUrl := Some ''http://127.0.0.1:9000''\<rparr>) (Caller 5) (PostBody ''E'') =
     ((new_client http_cfg)\<lparr>httpUrl := Some ''http://127.0.0.1:9000''\<rparr>,
      [Settled 5 (Rejected (ServerError (JStr ''Unknown'') (JNum (- 32601))))]) \<and>
   transport (new_client http_cfg) = ''http'' \<and> httpUrl (new_client http_cfg) = None \<and>
   sendRequest (new_client http_cfg) (Caller 5) ''tools/call'' JNull =
     (new_client http_cfg, [], Some (Error ''HTTP transport not configured'')) \<and>
   transport ready_stdio \<noteq> ''http'' \<and>
   requestId (fst (sendRequest ready_stdio (Caller 5) ''tools/call'' JNull)) = 3"
proof -
  let ?c = "(new_client http_cfg)\<lparr>httpUrl := Some ''http://127.0.0.1:9000''\<rparr>"
  have t: "transport ?c = ''http''" "transport (new_client http_cfg) = ''http''" "transport ready_stdio \<noteq> ''http''"
    by (simp_all add: transport_def new_client_def http_cfg_def ready_stdio_fields stdio_cfg_def)
  have u: "required (httpUrl ?c) = Some ''http://127.0.0.1:9000''"
      "required (httpUrl (new_client http_cfg)) = None"
      "httpUrl ?c = Some ''http://127.0.0.1:9000''" "httpUrl (new_client http_cfg) = None"
    by (simp_all add: new_client_def required_def)
  have i: "js_incr (requestId ?c) = 1" "js_incr (requestId ready_stdio) = 3"
    by (simp_all add: js_incr_def new_client_def ready_stdio_fields)
  have o: "http_outcome some_runtime (PostBody ''E'') = Rejected (ServerError (JStr ''Unknown'') (JNum (- 32601)))"
    by (simp add: http_outcome_def postJson_def some_runtime_def error_answer_def prop_of_def)
  note th1 = http_request_leaves_pending_table [of ?c "Caller 5" "''tools/call''" JNull some_runtime 5 "PostBody ''E''" some_host "[]"]
  note th2 = http_request_leaves_pending_table [of "new_client http_cfg" "Caller 5" "''tools/call''" JNull some_runtime 5 "PostBody ''E''" some_host "[]"]
  note th3 = http_request_leaves_pending_table [of ready_stdio "Caller 5" "''tools/call''" JNull some_runtime 5 "PostBody ''E''" some_host "[]"]
  have a1: "sendRequest ?c (Caller 5) ''tools/call'' JNull =
           (?c\<lparr>requestId := js_incr (requestId ?c)\<rparr>,
            [Post ''http://127.0.0.1:9000'' (Request (js_incr (requestId ?c)) ''tools/call'' JNull) (Caller 5)], None)"
    using th1 t(1) u(1) by blast
  have a2: "http_response some_runtime ?c (Caller 5) (PostBody ''E'') = (?c, [Settled 5 (http_outcome some_runtime (PostBody ''E''))])"
    using th1 t(1) by blast
  have a3: "sendRequest (new_client http_cfg) (Caller 5) ''tools/call'' JNull =
     (new_client http_cfg, [], Some (Error ''HTTP transport not configured''))"
    using th2 t(2) u(2) by blast
  have a4: "requestId (fst (sendRequest ready_stdio (Caller 5) ''tools/call'' JNull)) = js_incr (requestId ready_stdio)"
    using th3 t(3) by blast
  show ?thesis
    using t u a1 [unfolded i] a2 [unfolded o] a3 a4 [unfolded i] by simp
qed



section \<open>Framing of stream data\<close>

lemma split_on_nonempty [simp]: "split_on P xs \<noteq> []"
  by (induction xs) (auto split: list.splits)

lemma split_on_Cons:
  "split_on P (c # cs) =
     (if P c then [] # split_on P cs else (c # hd (split_on P cs)) # tl (split_on P cs))"
  using split_on_nonempty [of P cs] by (cases "split_on P cs") auto

declare split_on.simps(2) [simp del]

lemma split_on_no_sep: "l \<in> set (split_on P xs) \<Longrightarrow> c \<in> set l \<Longrightarrow> \<not> P c"
proof (induction xs arbitrary: l)
  case Nil
  then show ?case by simp
next
  case (Cons x xs)
  show ?case
  proof (cases "P x")
    case True
    then show ?thesis using Cons by (auto simp: split_on_Cons)
  next
    case False
    have h: "hd (split_on P xs) \<in> set (split_on P xs)" by simp
    have t: "set (tl (split_on P xs)) \<subseteq> set (split_on P xs)"
      by (meson list.set_sel(2) split_on_nonempty subsetI)
    from Cons.prems False have "l = x # hd (split_on P xs) \<or> l \<in> set (tl (split_on P xs))"
      by (simp add: split_on_Cons)
    then show ?thesis
      using Cons.IH [of "hd (split_on P xs)"] Cons.IH [of l] h t Cons.prems(2) False by auto
  qed
qed

lemma split_on_join:
  "concat (map (\<lambda>l. l @ [s]) (butlast (split_on (\<lambda>ch. ch = s) xs))) @ last (split_on (\<lambda>ch. ch = s) xs) = xs"
proof (induction xs)
  case Nil
  then show ?case by simp
next
  case (Cons x xs)
  let ?r = "split_on (\<lambda>ch. ch = s) xs"
  have ne: "?r \<noteq> []" by simp
  show ?case
  proof (cases "x = s")
    case True
    then show ?thesis using Cons ne by (simp add: split_on_Cons)
  next
    case False
    show ?thesis
    proof (cases "tl ?r = []")
      case True
      then have r: "?r = [hd ?r]" using ne by (cases ?r) auto
      then have "last ?r = hd ?r" "butlast ?r = []" by (metis last.simps, metis butlast.simps(2))
      then show ?thesis using Cons False True by (simp add: split_on_Cons)
    next
      case nt: False
      then have b: "butlast ?r = hd ?r # butlast (tl ?r)" and l: "last ?r = last (tl ?r)"
        using ne by (cases ?r; simp)+
      then show ?thesis using Cons False nt by (simp add: split_on_Cons)
    qed
  qed
qed

lemma split_on_prefix_no_sep:
  "\<forall>c \<in> set l. \<not> P c \<Longrightarrow> split_on P (l @ ys) = (l @ hd (split_on P ys)) # tl (split_on P ys)"
  by (induction l) (simp_all add: split_on_Cons)

lemma split_on_append:
  "split_on P (xs @ ys) = butlast (split_on P xs) @ split_on P (last (split_on P xs) @ ys)"
proof (induction xs)
  case Nil
  then show ?case by simp
next
  case (Cons x xs)
  let ?r = "split_on P xs"
  have ne: "?r \<noteq> []" by simp
  show ?case
  proof (cases "P x")
    case True
    then show ?thesis using Cons ne by (simp add: split_on_Cons)
  next
    case False
    show ?thesis
    proof (cases "tl ?r = []")
      case True
      then have r: "?r = [hd ?r]" using ne by (cases ?r) auto
      then have lb: "last ?r = hd ?r" "butlast ?r = []" by (metis last.simps, metis butlast.simps(2))
      have "\<forall>c \<in> set (hd ?r). \<not> P c" using split_on_no_sep [of "hd ?r" P xs] ne by simp
      then have "\<forall>c \<in> set (x # hd ?r). \<not> P c" using False by simp
      from split_on_prefix_no_sep [OF this, of ys] Cons lb True False
      show ?thesis by (simp add: split_on_Cons)
    next
      case nt: False
      then have b: "butlast ?r = hd ?r # butlast (tl ?r)" and l: "last ?r = last (tl ?r)"
        using ne by (cases ?r; simp)+
      have "split_on P (xs @ ys) = hd ?r # butlast (tl ?r) @ split_on P (last ?r @ ys)"
        using Cons b by simp
      then show ?thesis using False nt b l by (simp add: split_on_Cons)
    qed
  qed
qed

lemma frames_append: "frames (xs @ ys) = frames xs @ frames (fragment xs @ ys)"
  by (simp add: frames_def fragment_def split_on_append [of _ xs ys] butlast_append)

lemma fragment_append: "fragment (xs @ ys) = fragment (fragment xs @ ys)"
  by (simp add: fragment_def split_on_append [of _ xs ys])

lemma frames_fragment_join:
  "concat (map (\<lambda>l. l @ [CHR 0x0A]) (frames s)) @ fragment s = s"
  unfolding frames_def fragment_def by (rule split_on_join)

lemma fragment_no_newline: "CHR 0x0A \<notin> set (fragment s)"
  using split_on_no_sep [of "fragment s" "\<lambda>ch. ch = CHR 0x0A" s "CHR 0x0A"]
  by (auto simp: fragment_def)

lemma frames_no_newline: "list_all (\<lambda>l. CHR 0x0A \<notin> set l) (frames s)"
proof -
  have "set (frames s) \<subseteq> set (split_on (\<lambda>ch. ch = CHR 0x0A) s)"
    unfolding frames_def by (meson in_set_butlastD subsetI)
  then show ?thesis
    using split_on_no_sep [of _ "\<lambda>ch. ch = CHR 0x0A" s "CHR 0x0A"]
    by (auto simp: list_all_iff)
qed


lemma parsed_lines_simps [simp]:
  "parsed_lines [] = []"
  "parsed_lines (xs @ ys) = parsed_lines xs @ parsed_lines ys"
  "parsed_lines (Log (LogIncoming l) # xs) = l # parsed_lines xs"
  "parsed_lines (Log (LogParseFailed l) # xs) = parsed_lines xs"
  by (simp_all add: parsed_lines_def map_filter_def)

lemma parsed_messages_simps:
  "parsed_messages rt [] = []"
  "parsed_messages rt (l # ls) =
     (if blank l then parsed_messages rt ls
      else (case json_parse rt l of None \<Rightarrow> parsed_messages rt ls | Some m \<Rightarrow> m # parsed_messages rt ls))"
  by (simp_all add: parsed_messages_def map_filter_def split: option.splits)

lemma handleMessage_buffer:
  "handleMessage (c\<lparr>buffer := b\<rparr>) m =
     (case handleMessage c m of Inl e \<Rightarrow> Inl e | Inr (c', st) \<Rightarrow> Inr (c'\<lparr>buffer := b\<rparr>, st))"
  by (simp add: handleMessage_def split: option.splits)

lemma handleLine_buffer:
  "handleLine rt (c\<lparr>buffer := b\<rparr>, e, s) l =
     (case handleLine rt (c, e, s) l of (c', e', s') \<Rightarrow> (c'\<lparr>buffer := b\<rparr>, e', s'))"
  by (simp add: handleLine_def handleMessage_buffer split: option.splits sum.splits prod.splits)

lemma handleLine_acc:
  "handleLine rt (c, e, s) l =
     (case handleLine rt (c, [], []) l of (c', e', s') \<Rightarrow> (c', e @ e', s @ s'))"
  by (simp add: handleLine_def split: option.splits sum.splits prod.splits)

lemma foldl_handleLine_buffer:
  "foldl (handleLine rt) (c\<lparr>buffer := b\<rparr>, e, s) ls =
     (case foldl (handleLine rt) (c, e, s) ls of (c', e', s') \<Rightarrow> (c'\<lparr>buffer := b\<rparr>, e', s'))"
proof (induction ls arbitrary: c e s)
  case Nil
  then show ?case by simp
next
  case (Cons l ls)
  obtain c1 e1 s1 where h: "handleLine rt (c, e, s) l = (c1, e1, s1)"
    by (cases "handleLine rt (c, e, s) l") auto
  then show ?case using Cons [of c1 e1 s1] by (simp add: handleLine_buffer)
qed

lemma foldl_handleLine_acc:
  "foldl (handleLine rt) (c, e, s) ls =
     (case foldl (handleLine rt) (c, [], []) ls of (c', e', s') \<Rightarrow> (c', e @ e', s @ s'))"
proof (induction ls arbitrary: c e s)
  case Nil
  then show ?case by simp
next
  case (Cons l ls)
  obtain c1 e1 s1 where h: "handleLine rt (c, [], []) l = (c1, e1, s1)"
    by (cases "handleLine rt (c, [], []) l") auto
  then have h2: "handleLine rt (c, e, s) l = (c1, e @ e1, s @ s1)"
    using handleLine_acc [of rt c e s l] by simp
  obtain c2 e2 s2 where f: "foldl (handleLine rt) (c1, [], []) ls = (c2, e2, s2)"
    by (cases "foldl (handleLine rt) (c1, [], []) ls") auto
  show ?case
    using h h2 f Cons [of c1 "e @ e1" "s @ s1"] Cons [of c1 e1 s1] by simp
qed

lemma handleLine_buffer_kept: "buffer (fst (handleLine rt (c, e, s) l)) = buffer c"
  by (auto simp: handleLine_def handleMessage_def split: option.splits sum.splits prod.splits if_splits)

lemma foldl_handleLine_buffer_kept: "buffer (fst (foldl (handleLine rt) (c, e, s) ls)) = buffer c"
proof (induction ls arbitrary: c e s)
  case Nil
  then show ?case by simp
next
  case (Cons l ls)
  obtain c1 e1 s1 where h: "handleLine rt (c, e, s) l = (c1, e1, s1)"
    by (cases "handleLine rt (c, e, s) l") auto
  then have "buffer c1 = buffer c" using handleLine_buffer_kept [of rt c e s l] by simp
  then show ?case using h Cons [of c1 e1 s1] by simp
qed

lemma handleLine_deliver:
  "handleLine rt (c, e, s) l = (c1, e1, s1) \<Longrightarrow>
     c1 = fst (deliver c (parsed_messages rt [l])) \<and>
     parsed_lines e1 = parsed_lines e @ filter (\<lambda>l. \<not> blank l) [l] \<and>
     s1 = s @ snd (deliver c (parsed_messages rt [l]))"
  by (auto simp: handleLine_def parsed_messages_simps split: option.splits sum.splits prod.splits if_splits)

lemma parsed_messages_Cons: "parsed_messages rt (l # ls) = parsed_messages rt [l] @ parsed_messages rt ls"
  by (simp add: parsed_messages_simps split: option.splits)

lemma foldl_handleLine_deliver:
  "foldl (handleLine rt) (c, e, s) ls = (c', e', s') \<Longrightarrow>
     c' = fst (deliver c (parsed_messages rt ls)) \<and>
     parsed_lines e' = parsed_lines e @ filter (\<lambda>l. \<not> blank l) ls \<and>
     s' = s @ snd (deliver c (parsed_messages rt ls))"
proof (induction ls arbitrary: c e s)
  case Nil
  then show ?case by (simp add: parsed_messages_simps)
next
  case (Cons l ls)
  obtain c1 e1 s1 where h: "handleLine rt (c, e, s) l = (c1, e1, s1)"
    by (cases "handleLine rt (c, e, s) l") auto
  note a = handleLine_deliver [OF h]
  have "foldl (handleLine rt) (c1, e1, s1) ls = (c', e', s')" using Cons.prems h by simp
  note b = Cons.IH [OF this]
  show ?case
    using a b
    by (simp add: parsed_messages_Cons [of rt l ls] deliver_append del: deliver.simps)
qed

lemma deliver_buffer:
  "deliver (c\<lparr>buffer := b\<rparr>) ms = ((fst (deliver c ms))\<lparr>buffer := b\<rparr>, snd (deliver c ms))"
  by (induction ms arbitrary: c) (auto simp: handleMessage_buffer split: sum.splits prod.splits option.splits)

lemma handleData_chunks:
  assumes "handleData rt c d1 = (c1, e1, s1)" and "handleData rt c1 d2 = (c2, e2, s2)"
  shows "handleData rt c (d1 @ d2) = (c2, e1 @ e2, s1 @ s2)"
proof -
  let ?b1 = "fragment (buffer c @ d1)"
  let ?b2 = "fragment (?b1 @ d2)"
  let ?F1 = "frames (buffer c @ d1)"
  let ?F2 = "frames (?b1 @ d2)"
  have h1: "foldl (handleLine rt) (c\<lparr>buffer := ?b1\<rparr>, [], []) ?F1 = (c1, e1, s1)"
    using assms(1) by (simp add: handleData_def Let_def frames_def fragment_def)
  have b1: "buffer c1 = ?b1"
    using foldl_handleLine_buffer_kept [where rt = rt and c = "c\<lparr>buffer := ?b1\<rparr>" and e = "[]" and s = "[]" and ls = ?F1] h1 by simp
  have h2: "foldl (handleLine rt) (c1\<lparr>buffer := ?b2\<rparr>, [], []) ?F2 = (c2, e2, s2)"
    using assms(2) b1 by (simp add: handleData_def Let_def frames_def fragment_def)
  have u: "c\<lparr>buffer := ?b2\<rparr> = (c\<lparr>buffer := ?b1\<rparr>)\<lparr>buffer := ?b2\<rparr>" by simp
  have "foldl (handleLine rt) (c\<lparr>buffer := ?b2\<rparr>, [], []) ?F1 = (c1\<lparr>buffer := ?b2\<rparr>, e1, s1)"
    unfolding u using foldl_handleLine_buffer [where rt = rt and c = "c\<lparr>buffer := ?b1\<rparr>" and b = ?b2 and e = "[]" and s = "[]" and ls = ?F1] h1 by simp
  then have "foldl (handleLine rt) (c\<lparr>buffer := ?b2\<rparr>, [], []) (?F1 @ ?F2) = (c2, e1 @ e2, s1 @ s2)"
    using foldl_handleLine_acc [where rt = rt and c = "c1\<lparr>buffer := ?b2\<rparr>" and e = e1 and s = s1 and ls = ?F2] h2 by simp
  then show ?thesis
    by (simp add: handleData_def Let_def frames_def [symmetric] fragment_def [symmetric]
          frames_append [of "buffer c @ d1" d2, simplified] fragment_append [of "buffer c @ d1" d2, simplified])
qed


text \<open>
  C7 (as amended). For every buffer and every arriving chunk: the complete lines and the
  trailing fragment rebuild buffer-plus-chunk, and none of them contains a newline; the
  fragment is the new buffer; the lines handed to \<open>JSON.parse\<close> are exactly the
  complete lines that are not blank (a blank line is skipped without a diagnostic); the
  session and the promises settled are those of dispatching the parsed messages in order;
  handling a text in two chunks gives what handling it at once gives (the fragment is
  put before the next chunk); and a line that is not blank and fails to parse is logged
  as incoming and as failed, and changes nothing in the session, its table of pending
  requests and its transport included.
\<close>

theorem handleData_framing:
  "concat (map (\<lambda>l. l @ [CHR 0x0A]) (frames (buffer c @ data))) @ fragment (buffer c @ data) = buffer c @ data \<and>
   CHR 0x0A \<notin> set (fragment (buffer c @ data)) \<and>
   list_all (\<lambda>l. CHR 0x0A \<notin> set l) (frames (buffer c @ data)) \<and>
   buffer (fst (handleData rt c data)) = fragment (buffer c @ data) \<and>
   parsed_lines (fst (snd (handleData rt c data))) = filter (\<lambda>l. \<not> blank l) (frames (buffer c @ data)) \<and>
   fst (handleData rt c data) =
     (fst (deliver c (parsed_messages rt (frames (buffer c @ data)))))\<lparr>buffer := fragment (buffer c @ data)\<rparr> \<and>
   snd (snd (handleData rt c data)) = snd (deliver c (parsed_messages rt (frames (buffer c @ data)))) \<and>
   handleData rt c (data @ nxt) =
     (case handleData rt c data of (c1, e1, s1) \<Rightarrow>
        (case handleData rt c1 nxt of (c2, e2, s2) \<Rightarrow> (c2, e1 @ e2, s1 @ s2))) \<and>
   (\<not> blank l \<and> json_parse rt l = None \<longrightarrow>
      handleLine rt (c', effs, sts) l = (c', effs @ [Log (LogIncoming l), Log (LogParseFailed l)], sts)) \<and>
   (blank l \<longrightarrow> handleLine rt (c', effs, sts) l = (c', effs, sts))"
proof -
  let ?s = "buffer c @ data"
  obtain c1 e1 s1 where h: "handleData rt c data = (c1, e1, s1)"
    by (cases "handleData rt c data") auto
  then have f: "foldl (handleLine rt) (c\<lparr>buffer := fragment ?s\<rparr>, [], []) (frames ?s) = (c1, e1, s1)"
    by (simp add: handleData_def Let_def frames_def fragment_def)
  note d = foldl_handleLine_deliver [OF f]
  have b: "buffer c1 = fragment ?s"
    using foldl_handleLine_buffer_kept [where rt = rt and c = "c\<lparr>buffer := fragment ?s\<rparr>" and e = "[]"
        and s = "[]" and ls = "frames ?s"] f by simp
  obtain c2 e2 s2 where h2: "handleData rt c1 nxt = (c2, e2, s2)"
    by (cases "handleData rt c1 nxt") auto
  have ch: "handleData rt c (data @ nxt) = (c2, e1 @ e2, s1 @ s2)"
    using h h2 by (rule handleData_chunks)
  have p: "\<not> blank l \<and> json_parse rt l = None \<longrightarrow>
      handleLine rt (c', effs, sts) l = (c', effs @ [Log (LogIncoming l), Log (LogParseFailed l)], sts)"
    by (simp add: handleLine_def)
  have q: "blank l \<longrightarrow> handleLine rt (c', effs, sts) l = (c', effs, sts)"
    by (simp add: handleLine_def)
  show ?thesis
    using frames_fragment_join [of ?s] fragment_no_newline [of ?s] frames_no_newline [of ?s]
      h h2 b d ch p q
    by (simp add: deliver_buffer)
qed

lemma frames_example:
  "frames ([] @ [CHR ''I'', CHR 0x0A, CHR ''x'', CHR ''x'', CHR 0x0A, CHR '' '', CHR 0x0A, CHR ''T'']) =
     [''I'', ''xx'', '' '']"
  "fragment ([] @ [CHR ''I'', CHR 0x0A, CHR ''x'', CHR ''x'', CHR 0x0A, CHR '' '', CHR 0x0A, CHR ''T'']) = ''T''"
  "frames ([] @ [CHR '' '', CHR 0x0A]) = ['' '']"
  by (simp_all add: frames_def fragment_def split_on.simps)

lemma two_pending_buffer: "buffer two_pending = []" "two_pending\<lparr>buffer := []\<rparr> = two_pending"
  by (simp_all add: two_pending_def new_client_def)

theorem handleData_framing_witness:
  "\<not> blank ''xx'' \<and> json_parse some_runtime ''xx'' = None \<and>
   handleLine some_runtime (two_pending, [], []) ''xx'' =
     (two_pending, [Log (LogIncoming ''xx''), Log (LogParseFailed ''xx'')], []) \<and>
   blank '' '' \<and> handleLine some_runtime (two_pending, [], []) '' '' = (two_pending, [], []) \<and>
   buffer (fst (handleData some_runtime two_pending
      [CHR ''I'', CHR 0x0A, CHR ''x'', CHR ''x'', CHR 0x0A, CHR '' '', CHR 0x0A, CHR ''T''])) = ''T'' \<and>
   parsed_lines (fst (snd (handleData some_runtime two_pending
      [CHR ''I'', CHR 0x0A, CHR ''x'', CHR ''x'', CHR 0x0A, CHR '' '', CHR 0x0A, CHR ''T'']))) = [''I'', ''xx'']"
proof -
  have b: "\<not> blank ''xx''" "blank '' ''" by (simp_all add: blank_def js_space_def)
  have n: "json_parse some_runtime ''xx'' = None" by (simp add: some_runtime_def)
  note th = handleData_framing [of two_pending
      "[CHR ''I'', CHR 0x0A, CHR ''x'', CHR ''x'', CHR 0x0A, CHR '' '', CHR 0x0A, CHR ''T'']" some_runtime "[]"]
  have a1: "handleLine some_runtime (two_pending, [], []) ''xx'' =
     (two_pending, [] @ [Log (LogIncoming ''xx''), Log (LogParseFailed ''xx'')], [])"
    using th [of "''xx''" two_pending "[]" "[]"] b n by blast
  have a2: "handleLine some_runtime (two_pending, [], []) '' '' = (two_pending, [], [])"
    using th [of "'' ''" two_pending "[]" "[]"] b by blast
  let ?d = "[CHR ''I'', CHR 0x0A, CHR ''x'', CHR ''x'', CHR 0x0A, CHR '' '', CHR 0x0A, CHR ''T'']"
  have "buffer (fst (handleData some_runtime two_pending ?d)) = fragment (buffer two_pending @ ?d)"
    using th [of "[]" two_pending "[]" "[]"] by blast
  then have a3: "buffer (fst (handleData some_runtime two_pending ?d)) = ''T''"
    by (simp only: two_pending_buffer frames_example)
  have "parsed_lines (fst (snd (handleData some_runtime two_pending ?d))) =
      filter (\<lambda>l. \<not> blank l) (frames (buffer two_pending @ ?d))"
    using th [of "[]" two_pending "[]" "[]"] by blast
  then have a4: "parsed_lines (fst (snd (handleData some_runtime two_pending ?d))) =
      filter (\<lambda>l. \<not> blank l) [''I'', ''xx'', '' '']"
    by (simp only: two_pending_buffer frames_example)
  have f: "filter (\<lambda>l. \<not> blank l) [''I'', ''xx'', '' ''] = [''I'', ''xx'']"
    by (simp add: blank_def js_space_def)
  show ?thesis using b n a1 a2 a3 a4 f by simp
qed

text \<open>The claim as stated fails on a blank line: the complete line of one space does
  not parse, yet the handler neither parses it nor logs a diagnostic.\<close>

theorem blank_frame_not_parsed:
  "frames (buffer two_pending @ [CHR '' '', CHR 0x0A]) = ['' ''] \<and>
   json_parse some_runtime '' '' = None \<and>
   handleData some_runtime two_pending [CHR '' '', CHR 0x0A] = (two_pending, [], [])"
  by (simp add: frames_def split_on.simps some_runtime_def handleData_def handleLine_def blank_def
        js_space_def two_pending_buffer)



section \<open>Resolution of placeholders\<close>















end
